theory Spec2Isabelle
  imports Complex_Main "HOL-Library.Word"
begin

unbundle bit_operations_syntax

section \<open>Errors\<close>

text \<open>
  Every exception the modelled code can raise is a value. The names are those of the
  Python exceptions: \<open>KeyError\<close> for a missing dictionary key, \<open>ValueError\<close> for an
  explicit \<^verbatim>\<open>raise ValueError\<close>, a \<^verbatim>\<open>math\<close> domain error or a failed
  \<^verbatim>\<open>list.index\<close>, \<open>OverflowError\<close> for a value that does not fit the \<^verbatim>\<open>uint8_t\<close>
  cell it is stored in, \<open>IndexError\<close> for an index out of range, \<open>AssertionError\<close> for a
  failed \<^verbatim>\<open>assert\<close>, \<open>AttributeError\<close> for a method the object's class does not define,
  \<open>TypeError\<close> for a call of something that cannot be called so,
  \<open>CreationError\<close> for a value the \<^verbatim>\<open>bitstring\<close> library cannot pack in the requested
  width, \<open>Softlock\<close> for the package's own exception, \<open>ValueOutOfRange\<close> and
  \<open>TruncatedTrace\<close> for the failures the specification names for the packing helpers
  and the protocol parser, and \<open>UnsupportedMessage\<close> for a message type whose layout the
  specification leaves open.
\<close>

datatype error =
    KeyError | ValueError | OverflowError | IndexError | AssertionError
  | AttributeError | TypeError | CreationError | ValueOutOfRange | Softlock
  | TruncatedTrace | UnsupportedMessage

section \<open>Status\<close>

datatype InnerStatusEnum = HEALTHY | SLEEP | POISON | BURN | FREEZE | PARALYSIS

fun InnerStatusEnum_value :: "InnerStatusEnum \<Rightarrow> int" where
  "InnerStatusEnum_value HEALTHY = 0"
| "InnerStatusEnum_value SLEEP = 4"
| "InnerStatusEnum_value POISON = 8"
| "InnerStatusEnum_value BURN = 16"
| "InnerStatusEnum_value FREEZE = 32"
| "InnerStatusEnum_value PARALYSIS = 64"

record Status =
  status_value :: InnerStatusEnum
  duration :: "int option"
  is_self_inflicted :: "bool option"

text \<open>The constructor takes either an enum member or the pair for sleep.\<close>

definition Status_init :: "InnerStatusEnum + int \<times> bool \<Rightarrow> Status" where
  "Status_init v =
     (case v of
        Inr (d, s) \<Rightarrow> \<lparr>status_value = SLEEP, duration = Some d, is_self_inflicted = Some s\<rparr>
      | Inl e \<Rightarrow> \<lparr>status_value = e, duration = None, is_self_inflicted = None\<rparr>)"

definition Status_paralyzed :: Status where "Status_paralyzed = Status_init (Inl PARALYSIS)"

definition Status_burned :: Status where "Status_burned = Status_init (Inl BURN)"

definition Status_poisoned :: Status where "Status_poisoned = Status_init (Inl POISON)"

definition Status_frozen :: Status where "Status_frozen = Status_init (Inl FREEZE)"

definition Status_healthy :: Status where "Status_healthy = Status_init (Inl HEALTHY)"

definition Status_sleep :: "int \<Rightarrow> bool \<Rightarrow> Status" where
  "Status_sleep d s = Status_init (Inr (d, s))"

text \<open>
  \<^verbatim>\<open>to_int\<close>: Python's truth test of \<^verbatim>\<open>is_self_inflicted\<close> takes \<^verbatim>\<open>None\<close> as false;
  \<^verbatim>\<open>|\<close> is the bitwise or of unbounded integers.
\<close>

definition Status_to_int :: "Status \<Rightarrow> int" where
  "Status_to_int self =
     (case duration self of
        Some d \<Rightarrow> (if is_self_inflicted self = Some True then 0x80 OR d else d)
      | None \<Rightarrow> InnerStatusEnum_value (status_value self))"

section \<open>The stat formula\<close>

text \<open>
  \<^verbatim>\<open>statcalc\<close> computes with Python floats in two places:
  \<^verbatim>\<open>math.trunc(math.sqrt(experience) / 4)\<close> and \<^verbatim>\<open>math.trunc(level / 100)\<close>.
  \<^verbatim>\<open>math.sqrt\<close> raises \<^verbatim>\<open>ValueError\<close> on a negative argument. On integers below
  \<open>2 ^ 52\<close> in absolute value, which is far more than the 16-bit stat experience and the
  8-bit level the records store, the double-precision results are the exact ones after
  truncation: the integers convert exactly, the square root and the quotient by 100 are
  correctly rounded and never reach the next integer, and a division by four is exact.
  The model computes the truncated values with integer arithmetic, the integer square
  root and the division truncating towards zero, and the theorem about it is stated on
  that range.
\<close>

function isqrt :: "nat \<Rightarrow> nat" where
  "isqrt n =
     (if n = 0 then 0
      else (let r = 2 * isqrt (n div 4) in if (r + 1) * (r + 1) \<le> n then r + 1 else r))"
  by pat_completeness auto
termination
  by (relation "measure id") auto

declare isqrt.simps [simp del]

definition trunc_div :: "int \<Rightarrow> int \<Rightarrow> int" where
  "trunc_div a b = (if (a < 0) = (b < 0) then \<bar>a\<bar> div \<bar>b\<bar> else - (\<bar>a\<bar> div \<bar>b\<bar>))"

definition statcalc :: "int \<Rightarrow> bool \<Rightarrow> int \<Rightarrow> int \<Rightarrow> int \<Rightarrow> error + int" where
  "statcalc base_value is_HP level dv experience =
     (if experience < 0 then Inl ValueError
      else
        (let core = 2 * (base_value + dv) + int (isqrt (nat experience)) div 4;
             factor = (if is_HP then level + 10 else 5)
         in Inr ((core * trunc_div level 100 + factor) mod 2 ^ 16)))"



section \<open>Static data\<close>

text \<open>
  The tables of \<^verbatim>\<open>pykmn.data.gen1\<close> are data the functions below read and never
  write. They are parameters of the model: dictionaries are partial maps, \<^verbatim>\<open>TYPES\<close> is
  a list (the code calls \<^verbatim>\<open>TYPES.index\<close>), and the two layout dictionaries are one
  record of offsets and sizes.
\<close>

record Gen1StatData =
  st_hp :: int
  st_atk :: int
  st_def :: int
  st_spe :: int
  st_spc :: int

record SpeciesData =
  species_stats :: Gen1StatData
  species_types :: "string list"

record Layout =
  off_Pokemon_stats :: nat
  off_Pokemon_moves :: nat
  off_Pokemon_hp :: nat
  off_Pokemon_status :: nat
  off_Pokemon_species :: nat
  off_Pokemon_types :: nat
  off_Pokemon_level :: nat
  size_Pokemon :: nat
  off_Side_pokemon :: nat
  off_Side_active :: nat
  off_Side_order :: nat
  off_Side_last_selected_move :: nat
  off_Side_last_used_move :: nat
  size_Side :: nat

record Tables =
  MOVE_IDS :: "string \<rightharpoonup> int"
  MOVES :: "string \<rightharpoonup> int"
  SPECIES :: "string \<rightharpoonup> SpeciesData"
  SPECIES_IDS :: "string \<rightharpoonup> int"
  TYPES :: "string list"
  MOVE_ID_LOOKUP :: "int \<rightharpoonup> string"
  SPECIES_ID_LOOKUP :: "int \<rightharpoonup> string"
  LAYOUT :: Layout

section \<open>Byte buffers\<close>

text \<open>
  A buffer made by \<^verbatim>\<open>ffi.new("uint8_t[]", n)\<close> is \<open>n\<close> zero bytes of memory. The
  Python object is a window on that memory: the array itself, or a slice of it, which
  shares the memory with the array it was sliced from. The model keeps the memory of one
  allocation as a list of bytes and an array object as the offset and length of its
  window; every operation on an object takes the memory and, when it writes, returns it.
\<close>

type_synonym memory = "8 word list"

record cdata =
  c_off :: nat
  c_len :: nat

type_synonym action = "memory \<Rightarrow> error option \<times> memory"

definition ok :: action where
  "ok mem = (None, mem)"

definition raise :: "error \<Rightarrow> action" where
  "raise e mem = (Some e, mem)"

definition andthen :: "action \<Rightarrow> action \<Rightarrow> action" where
  "andthen a b mem = (case a mem of (None, mem') \<Rightarrow> b mem' | (Some e, mem') \<Rightarrow> (Some e, mem'))"

fun seqs :: "action list \<Rightarrow> action" where
  "seqs [] = ok"
| "seqs (a # as) = andthen a (seqs as)"

definition py_assert :: "bool \<Rightarrow> action" where
  "py_assert b = (if b then ok else raise AssertionError)"

definition ffi_new :: "nat \<Rightarrow> memory" where
  "ffi_new n = replicate n 0"

text \<open>Reading and writing one item: the index is checked, then the value.\<close>

definition cdata_get :: "cdata \<Rightarrow> memory \<Rightarrow> nat \<Rightarrow> error + int" where
  "cdata_get c mem i =
     (if i < c_len c \<and> c_off c + i < length mem then Inr (uint (mem ! (c_off c + i)))
      else Inl IndexError)"

definition cdata_set :: "cdata \<Rightarrow> nat \<Rightarrow> int \<Rightarrow> action" where
  "cdata_set c i v mem =
     (if i < c_len c \<and> c_off c + i < length mem then
        (if 0 \<le> v \<and> v \<le> 255 then (None, mem[c_off c + i := word_of_int v])
         else (Some OverflowError, mem))
      else (Some IndexError, mem))"

text \<open>\<^verbatim>\<open>x[i:j]\<close> on an array object: a window on the same memory.\<close>

definition cdata_slice :: "cdata \<Rightarrow> nat \<Rightarrow> nat \<Rightarrow> error + cdata" where
  "cdata_slice c i j =
     (if i \<le> j \<and> j \<le> c_len c then Inr \<lparr>c_off = c_off c + i, c_len = j - i\<rparr>
      else Inl IndexError)"

text \<open>\<^verbatim>\<open>x[i:i + 2] = (b1, b2)\<close>: the slice is taken, then the items are stored in order.\<close>

definition cdata_set_pair :: "cdata \<Rightarrow> nat \<Rightarrow> int \<times> int \<Rightarrow> action" where
  "cdata_set_pair c i p =
     (if i + 2 \<le> c_len c then andthen (cdata_set c i (fst p)) (cdata_set c (i + 1) (snd p))
      else raise IndexError)"

text \<open>\<^verbatim>\<open>bytes(x)\<close>: the contents of the window.\<close>

definition cdata_bytes :: "cdata \<Rightarrow> memory \<Rightarrow> 8 word list" where
  "cdata_bytes c mem = take (c_len c) (drop (c_off c) mem)"

definition bind_e :: "error + 'a \<Rightarrow> ('a \<Rightarrow> error + 'b) \<Rightarrow> error + 'b" where
  "bind_e m f = (case m of Inl e \<Rightarrow> Inl e | Inr a \<Rightarrow> f a)"

definition lookup :: "('k \<rightharpoonup> 'v) \<Rightarrow> 'k \<Rightarrow> error + 'v" where
  "lookup d k = (case d k of None \<Rightarrow> Inl KeyError | Some v \<Rightarrow> Inr v)"

fun list_index :: "'a list \<Rightarrow> 'a \<Rightarrow> error + nat" where
  "list_index [] x = Inl ValueError"
| "list_index (y # ys) x = (if y = x then Inr 0 else bind_e (list_index ys x) (\<lambda>n. Inr (Suc n)))"

definition list_get :: "'a list \<Rightarrow> nat \<Rightarrow> error + 'a" where
  "list_get xs i = (if i < length xs then Inr (xs ! i) else Inl IndexError)"

section \<open>Packing helpers\<close>

text \<open>
  Modelled from the spec: \<^verbatim>\<open>pack_u16_as_bytes\<close>, \<^verbatim>\<open>unpack_u16_from_bytes\<close>,
  \<^verbatim>\<open>pack_two_u4s\<close> and \<^verbatim>\<open>unpack_two_u4s\<close> of \<^verbatim>\<open>pykmn.engine.common\<close>, which is not
  among the sources. The specification gives 16-bit little-endian counters, a type pair
  packed as two 4-bit nibbles, and \<open>ValueOutOfRange\<close> for a value that does not fit its
  declared width. The first type is taken to be the low nibble.
\<close>

definition pack_u16_as_bytes :: "int \<Rightarrow> error + int \<times> int" where
  "pack_u16_as_bytes n =
     (if 0 \<le> n \<and> n < 65536 then Inr (n mod 256, n div 256) else Inl ValueOutOfRange)"

definition unpack_u16_from_bytes :: "int \<Rightarrow> int \<Rightarrow> int" where
  "unpack_u16_from_bytes b1 b2 = b1 + 256 * b2"

definition pack_two_u4s :: "int \<Rightarrow> int \<Rightarrow> error + int" where
  "pack_two_u4s a b =
     (if 0 \<le> a \<and> a < 16 \<and> 0 \<le> b \<and> b < 16 then Inr (a + 16 * b) else Inl ValueOutOfRange)"


section \<open>Pokemon\<close>

record ExtraPokemonData =
  x_hp :: "int option"
  x_status :: "int option"
  x_level :: "int option"
  x_stats :: "Gen1StatData option"
  x_types :: "(string \<times> string) option"
  x_move_pp :: "int list option"
  x_dvs :: "Gen1StatData option"
  x_exp :: "Gen1StatData option"

text \<open>
  A \<^verbatim>\<open>PokemonInitializer\<close> is a pair of species name and moveset, or a triple whose
  third item is the dictionary of optional keys.
\<close>

record PokemonInitializer =
  species_name :: string
  move_names :: "string list"
  extra_data :: "ExtraPokemonData option"

definition extra_key :: "PokemonInitializer \<Rightarrow> (ExtraPokemonData \<Rightarrow> 'a option) \<Rightarrow> 'a option" where
  "extra_key data key = (case extra_data data of None \<Rightarrow> None | Some d \<Rightarrow> key d)"

definition or_default :: "'a option \<Rightarrow> 'a \<Rightarrow> 'a" where
  "or_default x d = (case x of None \<Rightarrow> d | Some v \<Rightarrow> v)"

definition default_dvs :: Gen1StatData where
  "default_dvs = \<lparr>st_hp = 15, st_atk = 15, st_def = 15, st_spe = 15, st_spc = 15\<rparr>"

definition default_exp :: Gen1StatData where
  "default_exp = \<lparr>st_hp = 65535, st_atk = 65535, st_def = 65535, st_spe = 65535, st_spc = 65535\<rparr>"

definition zero_stats :: Gen1StatData where
  "zero_stats = \<lparr>st_hp = 0, st_atk = 0, st_def = 0, st_spe = 0, st_spc = 0\<rparr>"

text \<open>The loop \<^verbatim>\<open>for stat in stats: stats[stat] = statcalc(...)\<close> over the five keys.\<close>

definition calc_stats :: "Gen1StatData \<Rightarrow> int \<Rightarrow> Gen1StatData \<Rightarrow> Gen1StatData \<Rightarrow> error + Gen1StatData" where
  "calc_stats base level dvs stat_exp =
     bind_e (statcalc (st_hp base) True level (st_hp dvs) (st_hp stat_exp)) (\<lambda>hp.
     bind_e (statcalc (st_atk base) False level (st_atk dvs) (st_atk stat_exp)) (\<lambda>atk.
     bind_e (statcalc (st_def base) False level (st_def dvs) (st_def stat_exp)) (\<lambda>df.
     bind_e (statcalc (st_spe base) False level (st_spe dvs) (st_spe stat_exp)) (\<lambda>spe.
     bind_e (statcalc (st_spc base) False level (st_spc dvs) (st_spc stat_exp)) (\<lambda>spc.
     Inr \<lparr>st_hp = hp, st_atk = atk, st_def = df, st_spe = spe, st_spc = spc\<rparr>)))))"

text \<open>
  The species branch of \<^verbatim>\<open>initialize\<close>: the stats and the type pair, given or
  derived; \<^verbatim>\<open>ValueError\<close> for a name that is neither \<^verbatim>\<open>'None'\<close> nor in \<^verbatim>\<open>SPECIES\<close>.
\<close>

definition species_types_pair :: "SpeciesData \<Rightarrow> error + string \<times> string" where
  "species_types_pair sp =
     bind_e (list_get (species_types sp) 0) (\<lambda>first_type.
       Inr (first_type, if length (species_types sp) > 1 then species_types sp ! 1 else first_type))"

definition resolve_species ::
  "Tables \<Rightarrow> string \<Rightarrow> Gen1StatData option \<Rightarrow> (string \<times> string) option \<Rightarrow> int \<Rightarrow>
     Gen1StatData \<Rightarrow> Gen1StatData \<Rightarrow> error + Gen1StatData \<times> (string \<times> string)" where
  "resolve_species T name stats types level dvs stat_exp =
     (if name = ''None'' then
        Inr (or_default stats zero_stats, or_default types (''Normal'', ''Normal''))
      else
        (case SPECIES T name of
           Some sp \<Rightarrow>
             bind_e (case stats of None \<Rightarrow> calc_stats (species_stats sp) level dvs stat_exp
                                 | Some st \<Rightarrow> Inr st) (\<lambda>stats'.
             bind_e (case types of None \<Rightarrow> species_types_pair sp | Some ty \<Rightarrow> Inr ty) (\<lambda>types'.
               Inr (stats', types')))
         | None \<Rightarrow> Inl ValueError))"

definition pack_u16_at :: "cdata \<Rightarrow> nat \<Rightarrow> int \<Rightarrow> action" where
  "pack_u16_at c offset n =
     (case pack_u16_as_bytes n of Inl e \<Rightarrow> raise e | Inr p \<Rightarrow> cdata_set_pair c offset p)"

text \<open>
  One round of the move loop, for the slot at \<open>offset\<close>. The default PP is
  \<^verbatim>\<open>math.floor(MOVES[name] * 8 / 5)\<close>, a float division that is exact after the floor
  on the table's small integers.
\<close>

definition move_pp_of :: "Tables \<Rightarrow> string \<Rightarrow> int \<Rightarrow> int list option \<Rightarrow> nat \<Rightarrow> error + int" where
  "move_pp_of T name move_id move_pp move_index =
     (case move_pp of
        None \<Rightarrow> (if move_id = 0 then Inr 0
                 else bind_e (lookup (MOVES T) name) (\<lambda>base_pp. Inr ((base_pp * 8) div 5)))
      | Some pps \<Rightarrow> list_get pps move_index)"

definition pack_move :: "Tables \<Rightarrow> cdata \<Rightarrow> string list \<Rightarrow> int list option \<Rightarrow> nat \<Rightarrow> nat \<Rightarrow> action" where
  "pack_move T self names move_pp offset move_index =
     (if move_index \<ge> length names then
        andthen (cdata_set self offset 0) (cdata_set self (offset + 1) 0)
      else
        (case MOVE_IDS T (names ! move_index) of
           None \<Rightarrow> raise KeyError
         | Some move_id \<Rightarrow>
             (case move_pp_of T (names ! move_index) move_id move_pp move_index of
                Inl e \<Rightarrow> raise e
              | Inr pp \<Rightarrow> andthen (cdata_set self offset move_id) (cdata_set self (offset + 1) pp))))"

definition pack_species :: "Tables \<Rightarrow> cdata \<Rightarrow> string \<Rightarrow> nat \<Rightarrow> action" where
  "pack_species T self name offset =
     (case SPECIES_IDS T name of None \<Rightarrow> raise KeyError | Some sid \<Rightarrow> cdata_set self offset sid)"

definition pack_types :: "Tables \<Rightarrow> cdata \<Rightarrow> string \<times> string \<Rightarrow> nat \<Rightarrow> action" where
  "pack_types T self types offset =
     (case bind_e (list_index (TYPES T) (fst types)) (\<lambda>t1.
           bind_e (list_index (TYPES T) (snd types)) (\<lambda>t2.
             pack_two_u4s (int t1) (int t2))) of
        Inl e \<Rightarrow> raise e
      | Inr b \<Rightarrow> cdata_set self offset b)"

text \<open>
  \<^verbatim>\<open>Pokemon.initialize\<close>. The local \<^verbatim>\<open>offset\<close> starts at the stats offset and grows by
  the width of each field written; the model writes each value of it out.
\<close>

definition Pokemon_initialize :: "Tables \<Rightarrow> cdata \<Rightarrow> PokemonInitializer \<Rightarrow> action" where
  "Pokemon_initialize T self data =
     (let status = or_default (extra_key data x_status) 0;
          level = or_default (extra_key data x_level) 100;
          move_pp = extra_key data x_move_pp;
          dvs = or_default (extra_key data x_dvs) default_dvs;
          stat_exp = or_default (extra_key data x_exp) default_exp;
          L = LAYOUT T;
          offset = off_Pokemon_stats L
      in
        (case resolve_species T (species_name data) (extra_key data x_stats)
                (extra_key data x_types) level dvs stat_exp of
           Inl e \<Rightarrow> raise e
         | Inr (stats, types) \<Rightarrow>
             seqs
               [pack_u16_at self offset (st_hp stats),
                pack_u16_at self (offset + 2) (st_atk stats),
                pack_u16_at self (offset + 4) (st_def stats),
                pack_u16_at self (offset + 6) (st_spe stats),
                pack_u16_at self (offset + 8) (st_spc stats),
                py_assert (offset + 10 = off_Pokemon_moves L),
                pack_move T self (move_names data) move_pp (offset + 10) 0,
                pack_move T self (move_names data) move_pp (offset + 12) 1,
                pack_move T self (move_names data) move_pp (offset + 14) 2,
                pack_move T self (move_names data) move_pp (offset + 16) 3,
                py_assert (offset + 18 = off_Pokemon_hp L),
                pack_u16_at self (offset + 18) (or_default (extra_key data x_hp) (st_hp stats)),
                py_assert (offset + 20 = off_Pokemon_status L),
                cdata_set self (offset + 20) status,
                py_assert (offset + 21 = off_Pokemon_species L),
                pack_species T self (species_name data) (offset + 21),
                py_assert (offset + 22 = off_Pokemon_types L),
                pack_types T self types (offset + 22),
                py_assert (offset + 23 = off_Pokemon_level L),
                cdata_set self (offset + 23) level,
                py_assert (offset + 24 = size_Pokemon L)]))"

text \<open>The constructor checks the length of the window it is given.\<close>

definition Pokemon_init :: "Tables \<Rightarrow> cdata \<Rightarrow> error + cdata" where
  "Pokemon_init T bytes =
     (if c_len bytes = size_Pokemon (LAYOUT T) then Inr bytes else Inl AssertionError)"

definition Pokemon_new :: "Tables \<Rightarrow> PokemonInitializer \<Rightarrow> error option \<times> memory" where
  "Pokemon_new T initial_data =
     (let n = size_Pokemon (LAYOUT T); mem = ffi_new n
      in case Pokemon_init T \<lparr>c_off = 0, c_len = n\<rparr> of
           Inl e \<Rightarrow> (Some e, mem)
         | Inr p \<Rightarrow> Pokemon_initialize T p initial_data mem)"

subsection \<open>Readers\<close>

definition read_u16 :: "cdata \<Rightarrow> memory \<Rightarrow> nat \<Rightarrow> error + int" where
  "read_u16 c mem offset =
     bind_e (cdata_slice c offset (offset + 2)) (\<lambda>sl.
     bind_e (cdata_get sl mem 0) (\<lambda>byte1.
     bind_e (cdata_get sl mem 1) (\<lambda>byte2.
       Inr (unpack_u16_from_bytes byte1 byte2))))"

definition Pokemon_stats :: "Tables \<Rightarrow> cdata \<Rightarrow> memory \<Rightarrow> error + Gen1StatData" where
  "Pokemon_stats T self mem =
     (let offset = off_Pokemon_stats (LAYOUT T) in
      bind_e (read_u16 self mem offset) (\<lambda>hp.
      bind_e (read_u16 self mem (offset + 2)) (\<lambda>atk.
      bind_e (read_u16 self mem (offset + 4)) (\<lambda>df.
      bind_e (read_u16 self mem (offset + 6)) (\<lambda>spe.
      bind_e (read_u16 self mem (offset + 8)) (\<lambda>spc.
        Inr \<lparr>st_hp = hp, st_atk = atk, st_def = df, st_spe = spe, st_spc = spc\<rparr>))))))"

text \<open>
  The generator of \<^verbatim>\<open>moves\<close>: for each \<open>n\<close> of \<^verbatim>\<open>range(0, 8, 2)\<close>, the name of the
  move whose id is at \<open>offset + n\<close>, when that id is not 0.
\<close>

fun moves_gen :: "Tables \<Rightarrow> cdata \<Rightarrow> memory \<Rightarrow> nat \<Rightarrow> nat list \<Rightarrow> error + string list" where
  "moves_gen T self mem offset [] = Inr []"
| "moves_gen T self mem offset (n # ns) =
     bind_e (cdata_get self mem (offset + n)) (\<lambda>b.
       if b \<noteq> 0 then
         bind_e (lookup (MOVE_ID_LOOKUP T) b) (\<lambda>name.
         bind_e (moves_gen T self mem offset ns) (\<lambda>rest. Inr (name # rest)))
       else moves_gen T self mem offset ns)"

definition Pokemon_moves :: "Tables \<Rightarrow> cdata \<Rightarrow> memory \<Rightarrow> error + string list" where
  "Pokemon_moves T self mem = moves_gen T self mem (off_Pokemon_moves (LAYOUT T)) [0, 2, 4, 6]"

text \<open>
  The generator of \<^verbatim>\<open>pp_left\<close>: for each \<open>n\<close> of \<^verbatim>\<open>range(1, 9, 2)\<close>, the byte at
  \<open>offset + n\<close> when the byte before it is not 0.
\<close>

fun pp_gen :: "cdata \<Rightarrow> memory \<Rightarrow> nat \<Rightarrow> nat list \<Rightarrow> error + int list" where
  "pp_gen self mem offset [] = Inr []"
| "pp_gen self mem offset (n # ns) =
     bind_e (cdata_get self mem (offset + n - 1)) (\<lambda>b.
       if b \<noteq> 0 then
         bind_e (cdata_get self mem (offset + n)) (\<lambda>pp.
         bind_e (pp_gen self mem offset ns) (\<lambda>rest. Inr (pp # rest)))
       else pp_gen self mem offset ns)"

definition Pokemon_pp_left :: "Tables \<Rightarrow> cdata \<Rightarrow> memory \<Rightarrow> error + int list" where
  "Pokemon_pp_left T self mem = pp_gen self mem (off_Pokemon_moves (LAYOUT T)) [1, 3, 5, 7]"

definition Pokemon_hp :: "Tables \<Rightarrow> cdata \<Rightarrow> memory \<Rightarrow> error + int" where
  "Pokemon_hp T self mem = read_u16 self mem (off_Pokemon_hp (LAYOUT T))"

definition Pokemon_status :: "Tables \<Rightarrow> cdata \<Rightarrow> memory \<Rightarrow> error + int" where
  "Pokemon_status T self mem = cdata_get self mem (off_Pokemon_status (LAYOUT T))"

definition Pokemon_species :: "Tables \<Rightarrow> cdata \<Rightarrow> memory \<Rightarrow> error + string" where
  "Pokemon_species T self mem =
     bind_e (cdata_get self mem (off_Pokemon_species (LAYOUT T))) (lookup (SPECIES_ID_LOOKUP T))"


definition Pokemon_level :: "Tables \<Rightarrow> cdata \<Rightarrow> memory \<Rightarrow> error + int" where
  "Pokemon_level T self mem = cdata_get self mem (off_Pokemon_level (LAYOUT T))"

section \<open>Side\<close>

text \<open>
  A \<^verbatim>\<open>Side\<close> object holds its own array and a tuple of six \<^verbatim>\<open>Pokemon\<close> objects, each
  built on a slice of that array: six windows on the side's memory.
\<close>

record Side =
  side_bytes :: cdata
  side_team :: "cdata list"

fun make_team :: "Tables \<Rightarrow> cdata \<Rightarrow> nat \<Rightarrow> nat \<Rightarrow> error + cdata list" where
  "make_team T bytes offset 0 = Inr []"
| "make_team T bytes offset (Suc k) =
     bind_e (cdata_slice bytes offset (offset + size_Pokemon (LAYOUT T))) (\<lambda>sl.
     bind_e (Pokemon_init T sl) (\<lambda>p.
     bind_e (make_team T bytes (offset + size_Pokemon (LAYOUT T)) k) (\<lambda>rest.
       Inr (p # rest))))"

definition Side_init :: "Tables \<Rightarrow> cdata \<Rightarrow> error + Side" where
  "Side_init T bytes =
     (let L = LAYOUT T in
      bind_e (make_team T bytes (off_Side_pokemon L) 6) (\<lambda>team.
        if off_Side_pokemon L + 6 * size_Pokemon L = off_Side_active L
        then Inr \<lparr>side_bytes = bytes, side_team = team\<rparr>
        else Inl AssertionError))"

record SideInitializerDict =
  d_team :: "PokemonInitializer list"
  d_last_selected_move :: "string option"
  d_last_used_move :: "string option"

datatype SideInitializer = TeamList "PokemonInitializer list" | TeamDict SideInitializerDict

definition set_move_id :: "Tables \<Rightarrow> cdata \<Rightarrow> nat \<Rightarrow> string option \<Rightarrow> action" where
  "set_move_id T bytes offset name =
     (case name of
        None \<Rightarrow> ok
      | Some n \<Rightarrow> (case MOVE_IDS T n of None \<Rightarrow> raise KeyError
                                        | Some move_id \<Rightarrow> cdata_set bytes offset move_id))"

text \<open>The loop \<^verbatim>\<open>for i, pokemon_data in enumerate(team)\<close>, from index \<open>i\<close> on.\<close>

fun init_team :: "Tables \<Rightarrow> Side \<Rightarrow> nat \<Rightarrow> PokemonInitializer list \<Rightarrow> action" where
  "init_team T self i [] = ok"
| "init_team T self i (pokemon_data # rest) =
     andthen
       (case list_get (side_team self) i of
          Inl e \<Rightarrow> raise e
        | Inr p \<Rightarrow> Pokemon_initialize T p pokemon_data)
       (init_team T self (Suc i) rest)"

text \<open>The loop \<^verbatim>\<open>for i, slot in enumerate(order)\<close>, from index \<open>i\<close> on.\<close>

fun write_order :: "Tables \<Rightarrow> Side \<Rightarrow> nat \<Rightarrow> int list \<Rightarrow> action" where
  "write_order T self i [] = ok"
| "write_order T self i (slot # rest) =
     andthen (cdata_set (side_bytes self) (off_Side_order (LAYOUT T) + i) slot)
       (write_order T self (Suc i) rest)"

definition initialize_team :: "Tables \<Rightarrow> Side \<Rightarrow> PokemonInitializer list \<Rightarrow> action" where
  "initialize_team T self team =
     andthen (init_team T self 0 team)
       (write_order T self 0 (map (\<lambda>i. int i + 1) [0..<length team]))"

definition Side_initialize :: "Tables \<Rightarrow> Side \<Rightarrow> SideInitializer \<Rightarrow> action" where
  "Side_initialize T self data =
     (case data of
        TeamDict data_dict \<Rightarrow>
          seqs
            [set_move_id T (side_bytes self) (off_Side_last_selected_move (LAYOUT T))
               (d_last_selected_move data_dict),
             set_move_id T (side_bytes self) (off_Side_last_used_move (LAYOUT T))
               (d_last_used_move data_dict),
             initialize_team T self (d_team data_dict)]
      | TeamList team \<Rightarrow> initialize_team T self team)"

definition Side_new :: "Tables \<Rightarrow> SideInitializer \<Rightarrow> error option \<times> memory" where
  "Side_new T data =
     (let n = size_Side (LAYOUT T); mem = ffi_new n
      in case Side_init T \<lparr>c_off = 0, c_len = n\<rparr> of
           Inl e \<Rightarrow> (Some e, mem)
         | Inr side \<Rightarrow> Side_initialize T side data mem)"

definition Side_last_used_move :: "Tables \<Rightarrow> Side \<Rightarrow> memory \<Rightarrow> error + string" where
  "Side_last_used_move T self mem =
     bind_e (cdata_get (side_bytes self) mem (off_Side_last_used_move (LAYOUT T)))
       (lookup (MOVE_ID_LOOKUP T))"

definition Side_last_selected_move :: "Tables \<Rightarrow> Side \<Rightarrow> memory \<Rightarrow> error + string" where
  "Side_last_selected_move T self mem =
     bind_e (cdata_get (side_bytes self) mem (off_Side_last_selected_move (LAYOUT T)))
       (lookup (MOVE_ID_LOOKUP T))"

section \<open>Bit strings\<close>

text \<open>
  The \<^verbatim>\<open>bitstring\<close> library's \<^verbatim>\<open>Bits\<close>, as far as the code uses it: a sequence of bits,
  most significant first. \<^verbatim>\<open>Bits(bool=b)\<close> is one bit; \<^verbatim>\<open>Bits(uint=v, length=n)\<close> is
  the \<open>n\<close>-bit big-endian form of \<open>v\<close> and \<^verbatim>\<open>Bits(uintne=v, length=n)\<close> the form in
  the byte order of the machine, for whole bytes only; both refuse a value that does not
  fit. The byte order is a parameter. A list of \<^verbatim>\<open>Bits(...)\<close> expressions is evaluated
  from left to right, and the first that raises ends the evaluation.
\<close>

type_synonym Bits = "bool list"

definition Bits_bool :: "bool \<Rightarrow> Bits" where
  "Bits_bool b = [b]"

definition uint_bits :: "nat \<Rightarrow> int \<Rightarrow> Bits" where
  "uint_bits n v = map (\<lambda>i. bit v (n - 1 - i)) [0..<n]"

definition Bits_uint :: "int \<Rightarrow> nat \<Rightarrow> error + Bits" where
  "Bits_uint v n = (if 0 \<le> v \<and> v < 2 ^ n then Inr (uint_bits n v) else Inl CreationError)"

definition Bits_uintne :: "bool \<Rightarrow> int \<Rightarrow> nat \<Rightarrow> error + Bits" where
  "Bits_uintne little_endian v n =
     (if n mod 8 \<noteq> 0 then Inl CreationError
      else if 0 \<le> v \<and> v < 2 ^ n then
        Inr (if little_endian
             then concat (map (\<lambda>k. uint_bits 8 (take_bit 8 (drop_bit (8 * k) v))) [0..<n div 8])
             else uint_bits n v)
      else Inl CreationError)"

definition Bits_bytes :: "8 word list \<Rightarrow> Bits" where
  "Bits_bytes ws = concat (map (\<lambda>w. map (\<lambda>i. bit w (7 - i)) [0..<8]) ws)"

fun collect :: "(error + 'a) list \<Rightarrow> error + 'a list" where
  "collect [] = Inr []"
| "collect (x # xs) = bind_e x (\<lambda>v. bind_e (collect xs) (\<lambda>vs. Inr (v # vs)))"

definition Bits_join :: "(error + Bits) list \<Rightarrow> error + Bits" where
  "Bits_join parts = bind_e (collect parts) (\<lambda>bs. Inr (concat bs))"

section \<open>Volatiles\<close>

record Volatiles =
  Bide :: bool
  Thrashing :: bool
  MultiHit :: bool
  Flinch :: bool
  Charging :: bool
  Binding :: bool
  Invulnerable :: bool
  Confusion :: bool
  Mist :: bool
  FocusEnergy :: bool
  Substitute :: bool
  Recharging :: bool
  Rage :: bool
  LeechSeed :: bool
  Toxic :: bool
  LightScreen :: bool
  Reflect :: bool
  Transform :: bool
  confusion :: int
  attacks :: int
  state :: int
  substitute :: int
  transform :: int
  disabled_duration :: int
  disabled_move :: int
  toxic :: int

definition Volatiles_to_bits :: "bool \<Rightarrow> Volatiles \<Rightarrow> error + Bits" where
  "Volatiles_to_bits little_endian self =
     bind_e
       (Bits_join
          [Inr (Bits_bool (Bide self)),
           Inr (Bits_bool (Thrashing self)),
           Inr (Bits_bool (MultiHit self)),
           Inr (Bits_bool (Flinch self)),
           Inr (Bits_bool (Charging self)),
           Inr (Bits_bool (Binding self)),
           Inr (Bits_bool (Invulnerable self)),
           Inr (Bits_bool (Confusion self)),
           Inr (Bits_bool (Mist self)),
           Inr (Bits_bool (FocusEnergy self)),
           Inr (Bits_bool (Substitute self)),
           Inr (Bits_bool (Recharging self)),
           Inr (Bits_bool (Rage self)),
           Inr (Bits_bool (LeechSeed self)),
           Inr (Bits_bool (Toxic self)),
           Inr (Bits_bool (LightScreen self)),
           Inr (Bits_bool (Reflect self)),
           Inr (Bits_bool (Transform self)),
           Bits_uint (confusion self) 3,
           Bits_uint (attacks self) 3,
           Bits_uintne little_endian (state self) 16,
           Bits_uintne little_endian (substitute self) 8,
           Bits_uint (transform self) 4,
           Bits_uint (disabled_duration self) 4,
           Bits_uint (disabled_move self) 3,
           Bits_uint (toxic self) 5])
       (\<lambda>bits. if length bits = 8 * 8 then Inr bits else Inl AssertionError)"

text \<open>The values every field of which fits the width it is packed in.\<close>

definition volatiles_fit :: "Volatiles \<Rightarrow> bool" where
  "volatiles_fit v =
     (0 \<le> confusion v \<and> confusion v < 8 \<and> 0 \<le> attacks v \<and> attacks v < 8 \<and>
      0 \<le> state v \<and> state v < 65536 \<and> 0 \<le> substitute v \<and> substitute v < 256 \<and>
      0 \<le> transform v \<and> transform v < 16 \<and>
      0 \<le> disabled_duration v \<and> disabled_duration v < 16 \<and>
      0 \<le> disabled_move v \<and> disabled_move v < 8 \<and> 0 \<le> toxic v \<and> toxic v < 32)"

section \<open>The random number generator\<close>

text \<open>
  A \<^verbatim>\<open>ShowdownRNG\<close> holds the eight bytes of the engine's generator, set by the
  engine's \<^verbatim>\<open>pkmn_psrng_init\<close> from the seed; the engine function is a parameter. The
  class defines \<^verbatim>\<open>__init__\<close> and \<^verbatim>\<open>next\<close> and nothing else, and its instances have
  the one attribute \<^verbatim>\<open>_psrng\<close>: looking any other name up on an instance raises
  \<^verbatim>\<open>AttributeError\<close>.
\<close>

datatype ShowdownRNG = ShowdownRNG (psrng: "8 word list")

definition ShowdownRNG_init :: "(int \<Rightarrow> 8 word list) \<Rightarrow> int \<Rightarrow> ShowdownRNG" where
  "ShowdownRNG_init pkmn_psrng_init seed = ShowdownRNG (pkmn_psrng_init seed)"

definition ShowdownRNG_next ::
  "(8 word list \<Rightarrow> int \<times> 8 word list) \<Rightarrow> ShowdownRNG \<Rightarrow> int \<times> ShowdownRNG" where
  "ShowdownRNG_next pkmn_psrng_next self =
     (case pkmn_psrng_next (psrng self) of (n, s) \<Rightarrow> (n, ShowdownRNG s))"

datatype ShowdownRNG_member = Attr_psrng | Method_init | Method_next

definition ShowdownRNG_getattr :: "ShowdownRNG \<Rightarrow> string \<Rightarrow> error + ShowdownRNG_member" where
  "ShowdownRNG_getattr self name =
     (if name = ''_psrng'' then Inr Attr_psrng
      else if name = ''__init__'' then Inr Method_init
      else if name = ''next'' then Inr Method_next
      else Inl AttributeError)"

text \<open>
  The expression \<^verbatim>\<open>rng._to_bits()\<close>: the attribute is looked up, then called with no
  argument. None of the three members, called so, gives a \<^verbatim>\<open>Bits\<close>.
\<close>

definition rng_to_bits :: "ShowdownRNG \<Rightarrow> error + Bits" where
  "rng_to_bits rng =
     (case ShowdownRNG_getattr rng ''_to_bits'' of
        Inl e \<Rightarrow> Inl e
      | Inr member \<Rightarrow> Inl TypeError)"

section \<open>Battle\<close>

definition pack_move_indexes :: "bool \<Rightarrow> int \<Rightarrow> int \<Rightarrow> error + Bits" where
  "pack_move_indexes little_endian p1 p2 =
     (let length = 16 in
      Bits_join [Bits_uintne little_endian p1 length, Bits_uintne little_endian p2 length])"

text \<open>
  The constructor. A side comes with the memory of its buffer; \<open>PKMN_GEN1_BATTLE_SIZE\<close>
  is the engine's constant. The result is the bit string the constructor stores.
\<close>

definition Battle_init ::
  "bool \<Rightarrow> nat \<Rightarrow> Side \<times> memory \<Rightarrow> Side \<times> memory \<Rightarrow> int \<Rightarrow> int \<Rightarrow> int \<Rightarrow> int \<Rightarrow> ShowdownRNG \<Rightarrow>
     error + Bits" where
  "Battle_init little_endian PKMN_GEN1_BATTLE_SIZE p1_side p2_side start_turn last_damage
       p1_move_idx p2_move_idx rng =
     bind_e
       (Bits_join
          [Inr (Bits_bytes (cdata_bytes (side_bytes (fst p1_side)) (snd p1_side))),
           Inr (Bits_bytes (cdata_bytes (side_bytes (fst p2_side)) (snd p2_side))),
           Bits_uintne little_endian start_turn 16,
           Bits_uintne little_endian last_damage 16,
           pack_move_indexes little_endian p1_move_idx p2_move_idx,
           rng_to_bits rng])
       (\<lambda>battle_data.
          if length battle_data = PKMN_GEN1_BATTLE_SIZE * 8 then Inr battle_data
          else Inl AssertionError)"

subsection \<open>Legal choices\<close>

text \<open>
  The engine's \<^verbatim>\<open>pkmn_gen1_battle_choices\<close> is a parameter: given the battle, the
  player, the kind of choice requested and the capacity of the output array, it returns
  the number of choices (a \<^verbatim>\<open>uint8_t\<close>) and the contents of the array it has filled. A
  \<^verbatim>\<open>Result\<close> is read through its two accessors; a \<^verbatim>\<open>Choice\<close> wraps one byte of the
  array. Reading the array at or past its capacity raises \<^verbatim>\<open>IndexError\<close>.
\<close>

datatype Player = P1 | P2

record 'k Result =
  p1_choice_type :: 'k
  p2_choice_type :: 'k

datatype Choice = Choice "8 word"

definition possible_choices ::
  "('b \<Rightarrow> Player \<Rightarrow> 'k \<Rightarrow> nat \<Rightarrow> nat \<times> (nat \<Rightarrow> 8 word)) \<Rightarrow> nat \<Rightarrow> 'b \<Rightarrow> Player \<Rightarrow> 'k Result \<Rightarrow>
     error + Choice list" where
  "possible_choices pkmn_gen1_battle_choices PKMN_OPTIONS_SIZE battle player previous_turn_result =
     (let requested_kind =
            (if player = P1 then p1_choice_type previous_turn_result
             else p2_choice_type previous_turn_result);
          (num_choices, raw_choices) =
            pkmn_gen1_battle_choices battle player requested_kind PKMN_OPTIONS_SIZE
      in if num_choices = 0 then Inl Softlock
         else collect (map (\<lambda>i. if i < PKMN_OPTIONS_SIZE then Inr (Choice (raw_choices i))
                                  else Inl IndexError) [0..<num_choices]))"

section \<open>The protocol parser\<close>













section \<open>Notions of the proofs\<close>

text \<open>
  The layout the assertions of \<^verbatim>\<open>Pokemon.initialize\<close> demand: each field begins where
  the one before it ends, and the record ends after the level.
\<close>

definition pokemon_layout_ok :: "Layout \<Rightarrow> bool" where
  "pokemon_layout_ok L =
     (off_Pokemon_moves L = off_Pokemon_stats L + 10 \<and>
      off_Pokemon_hp L = off_Pokemon_stats L + 18 \<and>
      off_Pokemon_status L = off_Pokemon_stats L + 20 \<and>
      off_Pokemon_species L = off_Pokemon_stats L + 21 \<and>
      off_Pokemon_types L = off_Pokemon_stats L + 22 \<and>
      off_Pokemon_level L = off_Pokemon_stats L + 23 \<and>
      size_Pokemon L = off_Pokemon_stats L + 24)"

text \<open>The values of one and of two bytes.\<close>

definition u8 :: "int \<Rightarrow> bool" where "u8 v = (0 \<le> v \<and> v \<le> 255)"

definition u16 :: "int \<Rightarrow> bool" where "u16 v = (0 \<le> v \<and> v < 65536)"

text \<open>The memory with the bytes \<open>bs\<close> in place of those from index \<open>b\<close> on.\<close>

definition write_bytes :: "nat \<Rightarrow> 8 word list \<Rightarrow> memory \<Rightarrow> memory" where
  "write_bytes b bs mem = take b mem @ bs @ drop (b + length bs) mem"

text \<open>The id and the PP a slot receives.\<close>

definition slot_id :: "Tables \<Rightarrow> string list \<Rightarrow> nat \<Rightarrow> int" where
  "slot_id T names k = (if k < length names then the (MOVE_IDS T (names ! k)) else 0)"

definition slot_pp :: "Tables \<Rightarrow> string list \<Rightarrow> int list option \<Rightarrow> nat \<Rightarrow> int" where
  "slot_pp T names move_pp k =
     (if k < length names
      then (case move_pp_of T (names ! k) (slot_id T names k) move_pp k of Inr p \<Rightarrow> p | Inl e \<Rightarrow> 0)
      else 0)"

text \<open>A slot is packed without error: its move is known and its id and PP fit a byte.\<close>

definition slot_ok :: "Tables \<Rightarrow> string list \<Rightarrow> int list option \<Rightarrow> nat \<Rightarrow> bool" where
  "slot_ok T names move_pp k =
     (k < length names \<longrightarrow>
        (\<exists>i p. MOVE_IDS T (names ! k) = Some i \<and> u8 i \<and>
               move_pp_of T (names ! k) i move_pp k = Inr p \<and> u8 p))"

text \<open>The 24 bytes of a record, from the resolved stats and the indices of the types.\<close>

definition record_bytes ::
  "Tables \<Rightarrow> PokemonInitializer \<Rightarrow> Gen1StatData \<Rightarrow> nat \<Rightarrow> nat \<Rightarrow> int list" where
  "record_bytes T data st i1 i2 =
     (let names = move_names data; mpp = extra_key data x_move_pp;
          hp = or_default (extra_key data x_hp) (st_hp st) in
      [st_hp st mod 256, st_hp st div 256, st_atk st mod 256, st_atk st div 256,
       st_def st mod 256, st_def st div 256, st_spe st mod 256, st_spe st div 256,
       st_spc st mod 256, st_spc st div 256,
       slot_id T names 0, slot_pp T names mpp 0, slot_id T names 1, slot_pp T names mpp 1,
       slot_id T names 2, slot_pp T names mpp 2, slot_id T names 3, slot_pp T names mpp 3,
       hp mod 256, hp div 256,
       or_default (extra_key data x_status) 0,
       the (SPECIES_IDS T (species_name data)),
       int i1 + 16 * int i2,
       or_default (extra_key data x_level) 100])"

text \<open>An action that changes memory at the indices of \<open>S\<close> only; an action that always fails.\<close>

definition writes_within :: "nat set \<Rightarrow> action \<Rightarrow> bool" where
  "writes_within S a =
     (\<forall>m. length (snd (a m)) = length m \<and> (\<forall>i. i \<notin> S \<longrightarrow> snd (a m) ! i = m ! i))"

definition fails :: "action \<Rightarrow> bool" where
  "fails a = (\<forall>m. fst (a m) \<noteq> None)"

text \<open>
  An action through a window does to the memory what it does, through a window at
  offset 0, to the bytes of the window alone, and leaves the rest as it is.
\<close>

definition relocatable :: "(cdata \<Rightarrow> action) \<Rightarrow> bool" where
  "relocatable A =
     (\<forall>c mem. c_off c + c_len c \<le> length mem \<longrightarrow>
        length (snd (A \<lparr>c_off = 0, c_len = c_len c\<rparr> (cdata_bytes c mem))) = c_len c \<and>
        A c mem = (fst (A \<lparr>c_off = 0, c_len = c_len c\<rparr> (cdata_bytes c mem)),
                   write_bytes (c_off c)
                     (snd (A \<lparr>c_off = 0, c_len = c_len c\<rparr> (cdata_bytes c mem))) mem))"

text \<open>
  The layout of a side: the six records end where \<^verbatim>\<open>active\<close> begins, as
  \<^verbatim>\<open>Side.__init__\<close> asserts, and the order array lies after them, inside the side.
\<close>

definition side_layout_ok :: "Layout \<Rightarrow> bool" where
  "side_layout_ok L =
     (off_Side_pokemon L + 6 * size_Pokemon L = off_Side_active L \<and>
      off_Side_active L \<le> off_Side_order L \<and>
      off_Side_order L + 6 \<le> size_Side L)"

text \<open>The window of team slot \<open>i\<close>.\<close>

definition team_slot :: "Layout \<Rightarrow> nat \<Rightarrow> cdata" where
  "team_slot L i = \<lparr>c_off = off_Side_pokemon L + i * size_Pokemon L, c_len = size_Pokemon L\<rparr>"

section \<open>A sample of the static data\<close>

text \<open>
  An instance of the tables, for running the model on concrete inputs: the record
  layout of the engine's first generation (a 24-byte Pokemon, a 184-byte side), the
  fifteen types, and a few species and moves with their engine ids and base PP.
\<close>

definition sample_layout :: Layout where
  "sample_layout =
     \<lparr>off_Pokemon_stats = 0, off_Pokemon_moves = 10, off_Pokemon_hp = 18,
      off_Pokemon_status = 20, off_Pokemon_species = 21, off_Pokemon_types = 22,
      off_Pokemon_level = 23, size_Pokemon = 24,
      off_Side_pokemon = 0, off_Side_active = 144, off_Side_order = 176,
      off_Side_last_selected_move = 182, off_Side_last_used_move = 183, size_Side = 184\<rparr>"

definition sample_tables :: Tables where
  "sample_tables =
     \<lparr>MOVE_IDS = map_of [(''None'', 0), (''Pound'', 1), (''Psychic'', 94), (''Surf'', 57)],
      MOVES = map_of [(''Pound'', 35), (''Psychic'', 10), (''Surf'', 15)],
      SPECIES = map_of
        [(''Mew'', \<lparr>species_stats =
                      \<lparr>st_hp = 100, st_atk = 100, st_def = 100, st_spe = 100, st_spc = 100\<rparr>,
                    species_types = [''Psychic'']\<rparr>),
         (''Charizard'', \<lparr>species_stats =
                      \<lparr>st_hp = 78, st_atk = 84, st_def = 78, st_spe = 100, st_spc = 85\<rparr>,
                    species_types = [''Fire'', ''Flying'']\<rparr>)],
      SPECIES_IDS = map_of [(''None'', 0), (''Mew'', 151), (''Charizard'', 6)],
      TYPES = [''Normal'', ''Fighting'', ''Flying'', ''Poison'', ''Ground'', ''Rock'', ''Bug'',
               ''Ghost'', ''Fire'', ''Water'', ''Grass'', ''Electric'', ''Psychic'', ''Ice'',
               ''Dragon''],
      MOVE_ID_LOOKUP = map_of [(0, ''None''), (1, ''Pound''), (94, ''Psychic''), (57, ''Surf'')],
      SPECIES_ID_LOOKUP = map_of [(0, ''None''), (151, ''Mew''), (6, ''Charizard'')],
      LAYOUT = sample_layout\<rparr>"

definition sample_pokemon :: PokemonInitializer where
  "sample_pokemon =
     \<lparr>species_name = ''Mew'', move_names = [''Psychic'', ''Surf''], extra_data = None\<rparr>"


definition sample_unknown_move :: PokemonInitializer where
  "sample_unknown_move =
     \<lparr>species_name = ''Mew'', move_names = [''Psychic'', ''Bogus''], extra_data = None\<rparr>"

definition sample_volatiles :: Volatiles where
  "sample_volatiles =
     \<lparr>Bide = False, Thrashing = True, MultiHit = False, Flinch = False, Charging = False,
      Binding = False, Invulnerable = False, Confusion = True, Mist = False,
      FocusEnergy = False, Substitute = True, Recharging = False, Rage = False,
      LeechSeed = False, Toxic = True, LightScreen = False, Reflect = False,
      Transform = False, confusion = 5, attacks = 0, state = 4660, substitute = 37,
      transform = 0, disabled_duration = 0, disabled_move = 0, toxic = 31\<rparr>"

definition sample_engine_choices :: "unit \<Rightarrow> Player \<Rightarrow> nat \<Rightarrow> nat \<Rightarrow> nat \<times> (nat \<Rightarrow> 8 word)" where
  "sample_engine_choices battle player kind cap =
     (if kind = 0 then (0, \<lambda>i. 0) else (2, \<lambda>i. if i = 0 then 5 else if i = 1 then 9 else 0))"

definition zero_side :: "Side \<times> memory" where
  "zero_side = (\<lparr>side_bytes = \<lparr>c_off = 0, c_len = 184\<rparr>,
                 side_team = map (team_slot sample_layout) [0..<6]\<rparr>, ffi_new 184)"


section \<open>Properties of the status encoding\<close>

text \<open>
  Claim C10. \<^verbatim>\<open>Status.sleep(0, False).to_int()\<close> is 0, the encoding of
  \<^verbatim>\<open>Status.healthy()\<close>; for every duration \<open>d\<close> a sleep that is not self-inflicted
  encodes as \<open>d\<close> and a self-inflicted one as \<open>0x80 | d\<close>.
\<close>

theorem Status_sleep_to_int:
  "Status_to_int (Status_sleep 0 False) = 0
   \<and> Status_to_int (Status_sleep 0 False) = Status_to_int Status_healthy
   \<and> Status_to_int (Status_sleep d False) = d
   \<and> Status_to_int (Status_sleep d True) = 0x80 OR d"
  by (simp add: Status_to_int_def Status_sleep_def Status_healthy_def Status_init_def)

section \<open>Properties of the stat formula\<close>

lemma isqrt_bounds: "isqrt n * isqrt n \<le> n \<and> n < (isqrt n + 1) * (isqrt n + 1)"
proof (induction n rule: isqrt.induct)
  case (1 n)
  show ?case
  proof (cases "n = 0")
    case True
    then show ?thesis by (simp add: isqrt.simps)
  next
    case False
    define s where "s = isqrt (n div 4)"
    from 1 False have ih: "s * s \<le> n div 4 \<and> n div 4 < (s + 1) * (s + 1)"
      by (simp add: s_def)
    have lo: "(2 * s) * (2 * s) \<le> n"
    proof -
      have "4 * (s * s) \<le> 4 * (n div 4)" using ih by simp
      also have "\<dots> \<le> n" by simp
      finally show ?thesis by (simp add: algebra_simps)
    qed
    have hi: "n < (2 * s + 2) * (2 * s + 2)"
    proof -
      have "n div 4 + 1 \<le> (s + 1) * (s + 1)" using ih by simp
      then have "4 * (n div 4) + 4 \<le> 4 * ((s + 1) * (s + 1))" by simp
      moreover have "n < 4 * (n div 4) + 4" by presburger
      ultimately show ?thesis by (simp add: algebra_simps)
    qed
    have eq: "isqrt n = (if (2 * s + 1) * (2 * s + 1) \<le> n then 2 * s + 1 else 2 * s)"
      using False by (subst isqrt.simps) (simp add: s_def Let_def)
    show ?thesis
    proof (cases "(2 * s + 1) * (2 * s + 1) \<le> n")
      case True
      then show ?thesis using eq hi by (simp add: algebra_simps)
    next
      case False
      then show ?thesis using eq lo by (simp add: algebra_simps)
    qed
  qed
qed

lemma isqrt_unique:
  assumes "r * r \<le> n" and "n < (r + 1) * (r + 1)"
  shows "isqrt n = r"
proof -
  define s where "s = isqrt n"
  have b: "s * s \<le> n" "n < (s + 1) * (s + 1)"
    using isqrt_bounds [of n] by (simp_all add: s_def)
  have "\<not> r + 1 \<le> s"
  proof
    assume "r + 1 \<le> s"
    then have "(r + 1) * (r + 1) \<le> s * s" by (intro mult_le_mono)
    with assms b show False by linarith
  qed
  moreover have "\<not> s + 1 \<le> r"
  proof
    assume "s + 1 \<le> r"
    then have "(s + 1) * (s + 1) \<le> r * r" by (intro mult_le_mono)
    with assms b show False by linarith
  qed
  ultimately show ?thesis by (simp add: s_def)
qed






section \<open>Properties of Pokemon.initialize and the readers\<close>

lemma uint_byte: "0 \<le> v \<Longrightarrow> v \<le> 255 \<Longrightarrow> uint (word_of_int v :: 8 word) = v"
  by (simp add: uint_word_of_int take_bit_eq_mod)

lemma u16_high_byte: "0 \<le> (n::int) \<Longrightarrow> n < 65536 \<Longrightarrow> 0 \<le> n div 256 \<and> n div 256 \<le> 255"
  by arith

lemma cdata_set_ok:
  "i < c_len c \<Longrightarrow> c_off c + c_len c \<le> length mem \<Longrightarrow> 0 \<le> v \<Longrightarrow> v \<le> 255 \<Longrightarrow>
     cdata_set c i v mem = (None, mem[c_off c + i := word_of_int v])"
  by (simp add: cdata_set_def)


lemma write_bytes_Nil: "write_bytes b [] mem = mem"
  by (simp add: write_bytes_def)

lemma length_write_bytes: "b + length bs \<le> length mem \<Longrightarrow> length (write_bytes b bs mem) = length mem"
  by (simp add: write_bytes_def)

lemma write_bytes_snoc:
  assumes "b + length bs < length mem"
  shows "(write_bytes b bs mem)[b + length bs := x] = write_bytes b (bs @ [x]) mem"
proof -
  have d: "drop (b + length bs) mem = mem ! (b + length bs) # drop (Suc (b + length bs)) mem"
    using assms by (simp add: Cons_nth_drop_Suc)
  have "(take b mem @ bs @ drop (b + length bs) mem)[b + length bs := x]
          = take b mem @ bs @ (drop (b + length bs) mem)[0 := x]"
    using assms by (simp add: list_update_append)
  then show ?thesis
    by (simp add: write_bytes_def d)
qed

lemma nth_write_bytes:
  "b \<le> length mem \<Longrightarrow> k < length bs \<Longrightarrow> write_bytes b bs mem ! (b + k) = bs ! k"
  by (simp add: write_bytes_def nth_append)

lemma cdata_set_snoc:
  assumes "i = k + length bs" "i < c_len c" "c_off c + c_len c \<le> length mem" "0 \<le> v" "v \<le> 255"
  shows "cdata_set c i v (write_bytes (c_off c + k) bs mem)
           = (None, write_bytes (c_off c + k) (bs @ [word_of_int v]) mem)"
proof -
  have len: "length (write_bytes (c_off c + k) bs mem) = length mem"
    using assms by (intro length_write_bytes) simp
  have "cdata_set c i v (write_bytes (c_off c + k) bs mem)
          = (None, (write_bytes (c_off c + k) bs mem)[c_off c + i := word_of_int v])"
    using assms len by (intro cdata_set_ok) simp_all
  moreover have "(write_bytes (c_off c + k) bs mem)[c_off c + k + length bs := word_of_int v]
          = write_bytes (c_off c + k) (bs @ [word_of_int v]) mem"
    using assms by (intro write_bytes_snoc) simp
  ultimately show ?thesis
    using assms(1) by (simp add: add.assoc)
qed

lemma pack_u16_at_snoc:
  assumes "offset = k + length bs" "offset + 2 \<le> c_len c" "c_off c + c_len c \<le> length mem" "u16 n"
  shows "pack_u16_at c offset n (write_bytes (c_off c + k) bs mem)
           = (None, write_bytes (c_off c + k)
                      (bs @ [word_of_int (n mod 256), word_of_int (n div 256)]) mem)"
proof -
  have 1: "cdata_set c offset (n mod 256) (write_bytes (c_off c + k) bs mem)
             = (None, write_bytes (c_off c + k) (bs @ [word_of_int (n mod 256)]) mem)"
    using assms by (intro cdata_set_snoc) simp_all
  have 2: "cdata_set c (offset + 1) (n div 256)
             (write_bytes (c_off c + k) (bs @ [word_of_int (n mod 256)]) mem)
             = (None, write_bytes (c_off c + k)
                        ((bs @ [word_of_int (n mod 256)]) @ [word_of_int (n div 256)]) mem)"
    using assms u16_high_byte [of n] by (intro cdata_set_snoc) (simp_all add: u16_def)
  show ?thesis
    using assms(2,4) 1 2
    by (simp add: pack_u16_at_def pack_u16_as_bytes_def u16_def cdata_set_pair_def andthen_def)
qed

lemma slot_ok_u8:
  assumes "slot_ok T names move_pp k"
  shows "u8 (slot_id T names k) \<and> u8 (slot_pp T names move_pp k)"
  using assms by (auto simp: slot_ok_def slot_id_def slot_pp_def u8_def)

lemma pack_move_as_sets:
  assumes "slot_ok T names move_pp k"
  shows "pack_move T c names move_pp offset k =
           andthen (cdata_set c offset (slot_id T names k))
                   (cdata_set c (offset + 1) (slot_pp T names move_pp k))"
  using assms by (auto simp: pack_move_def slot_ok_def slot_id_def slot_pp_def)

lemma pack_move_snoc:
  assumes "offset = k + length bs" "offset + 2 \<le> c_len c" "c_off c + c_len c \<le> length mem"
    and "slot_ok T names move_pp j"
  shows "pack_move T c names move_pp offset j (write_bytes (c_off c + k) bs mem)
           = (None, write_bytes (c_off c + k)
                      (bs @ [word_of_int (slot_id T names j),
                             word_of_int (slot_pp T names move_pp j)]) mem)"
proof -
  note u = slot_ok_u8 [OF assms(4)]
  have 1: "cdata_set c offset (slot_id T names j) (write_bytes (c_off c + k) bs mem)
             = (None, write_bytes (c_off c + k) (bs @ [word_of_int (slot_id T names j)]) mem)"
    using assms u by (intro cdata_set_snoc) (simp_all add: u8_def)
  have 2: "cdata_set c (offset + 1) (slot_pp T names move_pp j)
             (write_bytes (c_off c + k) (bs @ [word_of_int (slot_id T names j)]) mem)
             = (None, write_bytes (c_off c + k)
                  ((bs @ [word_of_int (slot_id T names j)])
                     @ [word_of_int (slot_pp T names move_pp j)]) mem)"
    using assms u by (intro cdata_set_snoc) (simp_all add: u8_def)
  show ?thesis
    using 1 2 by (simp add: pack_move_as_sets [OF assms(4)] andthen_def)
qed

lemma pack_species_snoc:
  assumes "offset = k + length bs" "offset < c_len c" "c_off c + c_len c \<le> length mem"
    and "SPECIES_IDS T name = Some sid" "u8 sid"
  shows "pack_species T c name offset (write_bytes (c_off c + k) bs mem)
           = (None, write_bytes (c_off c + k) (bs @ [word_of_int sid]) mem)"
  using assms by (simp add: pack_species_def cdata_set_snoc u8_def)

lemma pack_types_snoc:
  assumes "offset = k + length bs" "offset < c_len c" "c_off c + c_len c \<le> length mem"
    and "list_index (TYPES T) t1 = Inr i1" "list_index (TYPES T) t2 = Inr i2" "i1 < 16" "i2 < 16"
  shows "pack_types T c (t1, t2) offset (write_bytes (c_off c + k) bs mem)
           = (None, write_bytes (c_off c + k) (bs @ [word_of_int (int i1 + 16 * int i2)]) mem)"
proof -
  have "cdata_set c offset (int i1 + 16 * int i2) (write_bytes (c_off c + k) bs mem)
          = (None, write_bytes (c_off c + k) (bs @ [word_of_int (int i1 + 16 * int i2)]) mem)"
    using assms by (intro cdata_set_snoc) simp_all
  then show ?thesis
    using assms by (simp add: pack_types_def bind_e_def pack_two_u4s_def)
qed

lemma Pokemon_initialize_ok:
  assumes L: "pokemon_layout_ok (LAYOUT T)"
    and win: "c_len self = size_Pokemon (LAYOUT T)" "c_off self + c_len self \<le> length mem"
    and res: "resolve_species T (species_name data) (extra_key data x_stats)
                (extra_key data x_types) (or_default (extra_key data x_level) 100)
                (or_default (extra_key data x_dvs) default_dvs)
                (or_default (extra_key data x_exp) default_exp) = Inr (st, (t1, t2))"
    and st: "u16 (st_hp st)" "u16 (st_atk st)" "u16 (st_def st)" "u16 (st_spe st)" "u16 (st_spc st)"
    and hp: "u16 (or_default (extra_key data x_hp) (st_hp st))"
    and sl: "u8 (or_default (extra_key data x_status) 0)" "u8 (or_default (extra_key data x_level) 100)"
    and slots: "slot_ok T (move_names data) (extra_key data x_move_pp) 0"
               "slot_ok T (move_names data) (extra_key data x_move_pp) 1"
               "slot_ok T (move_names data) (extra_key data x_move_pp) 2"
               "slot_ok T (move_names data) (extra_key data x_move_pp) 3"
    and sid: "SPECIES_IDS T (species_name data) = Some sid" "u8 sid"
    and ty: "list_index (TYPES T) t1 = Inr i1" "list_index (TYPES T) t2 = Inr i2" "i1 < 16" "i2 < 16"
  shows "Pokemon_initialize T self data mem =
           (None, write_bytes (c_off self + off_Pokemon_stats (LAYOUT T))
                    (map word_of_int (record_bytes T data st i1 i2)) mem)"
proof -
  have len: "c_len self = off_Pokemon_stats (LAYOUT T) + 24"
    using L win by (simp add: pokemon_layout_ok_def)
  note snoc = pack_u16_at_snoc pack_move_snoc pack_species_snoc pack_types_snoc cdata_set_snoc
  have "Pokemon_initialize T self data
          (write_bytes (c_off self + off_Pokemon_stats (LAYOUT T)) [] mem) =
           (None, write_bytes (c_off self + off_Pokemon_stats (LAYOUT T))
                    (map word_of_int (record_bytes T data st i1 i2)) mem)"
    unfolding Pokemon_initialize_def Let_def res
    using L win(2) st hp sl slots sid ty
    by (simp add: snoc len andthen_def py_assert_def ok_def pokemon_layout_ok_def
        record_bytes_def Let_def u8_def)
  then show ?thesis
    by (simp add: write_bytes_Nil)
qed

lemma nth_write_bytes_at:
  "b \<le> i \<Longrightarrow> i - b < length bs \<Longrightarrow> b \<le> length mem \<Longrightarrow> write_bytes b bs mem ! i = bs ! (i - b)"
  using nth_write_bytes [of b mem "i - b" bs] by simp

lemma cdata_get_written:
  assumes "k \<le> i" "i - k < length bs" "k + length bs \<le> c_len c"
    and "c_off c + c_len c \<le> length mem" "\<forall>x\<in>set bs. u8 x"
  shows "cdata_get c (write_bytes (c_off c + k) (map word_of_int bs) mem) i = Inr (bs ! (i - k))"
proof -
  have len: "length (write_bytes (c_off c + k) (map word_of_int bs) mem) = length mem"
    using assms by (intro length_write_bytes) simp
  have "write_bytes (c_off c + k) (map word_of_int bs) mem ! (c_off c + i)
          = map word_of_int bs ! (c_off c + i - (c_off c + k))"
    using assms by (intro nth_write_bytes_at) simp_all
  also have "\<dots> = word_of_int (bs ! (i - k))"
    using assms by simp
  finally have "write_bytes (c_off c + k) (map word_of_int bs) mem ! (c_off c + i)
                  = word_of_int (bs ! (i - k))" .
  moreover have "u8 (bs ! (i - k))"
    using assms by simp
  ultimately show ?thesis
    using assms len by (simp add: cdata_get_def uint_byte u8_def)
qed

lemma read_u16_written:
  assumes "k \<le> i" "i + 1 - k < length bs" "k + length bs \<le> c_len c"
    and "c_off c + c_len c \<le> length mem" "\<forall>x\<in>set bs. u8 x"
  shows "read_u16 c (write_bytes (c_off c + k) (map word_of_int bs) mem) i
           = Inr (unpack_u16_from_bytes (bs ! (i - k)) (bs ! (i + 1 - k)))"
proof -
  let ?m = "write_bytes (c_off c + k) (map word_of_int bs) mem"
  have len: "length ?m = length mem"
    using assms by (intro length_write_bytes) simp
  have 1: "cdata_get c ?m i = Inr (bs ! (i - k))"
    using assms by (intro cdata_get_written) simp_all
  have 2: "cdata_get c ?m (i + 1) = Inr (bs ! (i + 1 - k))"
    using assms by (intro cdata_get_written) simp_all
  have in_win: "i + 2 \<le> c_len c"
    using assms by arith
  have "cdata_get \<lparr>c_off = c_off c + i, c_len = 2\<rparr> ?m 0 = cdata_get c ?m i"
    using in_win assms(4) len by (simp add: cdata_get_def)
  moreover have "cdata_get \<lparr>c_off = c_off c + i, c_len = 2\<rparr> ?m 1 = cdata_get c ?m (i + 1)"
    using in_win assms(4) len by (simp add: cdata_get_def add.assoc)
  ultimately show ?thesis
    using in_win 1 2 by (simp add: read_u16_def cdata_slice_def bind_e_def)
qed

lemma u16_bytes: "u16 n \<Longrightarrow> u8 (n mod 256) \<and> u8 (n div 256) \<and> unpack_u16_from_bytes (n mod 256) (n div 256) = n"
  using u16_high_byte [of n] by (simp add: u16_def u8_def unpack_u16_from_bytes_def)

lemma length_le4_cases:
  assumes "length xs \<le> 4"
  obtains "xs = []" | a where "xs = [a]" | a b where "xs = [a, b]"
    | a b c where "xs = [a, b, c]" | a b c d where "xs = [a, b, c, d]"
proof -
  from assms have "length xs = 0 \<or> length xs = 1 \<or> length xs = 2 \<or> length xs = 3 \<or> length xs = 4"
    by arith
  then show thesis
    using that by (auto simp: length_Suc_conv eval_nat_numeral)
qed

lemma length_record_bytes: "length (record_bytes T data st i1 i2) = 24"
  by (simp add: record_bytes_def Let_def)

lemma record_bytes_u8:
  assumes "u16 (st_hp st)" "u16 (st_atk st)" "u16 (st_def st)" "u16 (st_spe st)" "u16 (st_spc st)"
    and "u16 (or_default (extra_key data x_hp) (st_hp st))"
    and "u8 (or_default (extra_key data x_status) 0)" "u8 (or_default (extra_key data x_level) 100)"
    and "slot_ok T (move_names data) (extra_key data x_move_pp) 0"
        "slot_ok T (move_names data) (extra_key data x_move_pp) 1"
        "slot_ok T (move_names data) (extra_key data x_move_pp) 2"
        "slot_ok T (move_names data) (extra_key data x_move_pp) 3"
    and "SPECIES_IDS T (species_name data) = Some sid" "u8 sid"
    and "i1 < 16" "i2 < 16"
  shows "\<forall>x\<in>set (record_bytes T data st i1 i2). u8 x"
proof -
  have "u8 (int i1 + 16 * int i2)"
    using assms by (simp add: u8_def)
  then show ?thesis
    using assms(13-14) u16_bytes [OF assms(1)] u16_bytes [OF assms(2)] u16_bytes [OF assms(3)]
      u16_bytes [OF assms(4)] u16_bytes [OF assms(5)] u16_bytes [OF assms(6)] assms(7,8)
      slot_ok_u8 [OF assms(9)] slot_ok_u8 [OF assms(10)] slot_ok_u8 [OF assms(11)]
      slot_ok_u8 [OF assms(12)]
    by (simp add: record_bytes_def Let_def)
qed

text \<open>What each reader returns on a record written from a list of 24 bytes.\<close>

lemma readers_of_written:
  assumes L: "pokemon_layout_ok (LAYOUT T)"
    and win: "c_len self = size_Pokemon (LAYOUT T)" "c_off self + c_len self \<le> length mem"
    and bs: "length bs = 24" "\<forall>x\<in>set bs. u8 x"
    and m: "mem' = write_bytes (c_off self + off_Pokemon_stats (LAYOUT T)) (map word_of_int bs) mem"
  shows "Pokemon_stats T self mem' =
           Inr \<lparr>st_hp = unpack_u16_from_bytes (bs ! 0) (bs ! 1),
                st_atk = unpack_u16_from_bytes (bs ! 2) (bs ! 3),
                st_def = unpack_u16_from_bytes (bs ! 4) (bs ! 5),
                st_spe = unpack_u16_from_bytes (bs ! 6) (bs ! 7),
                st_spc = unpack_u16_from_bytes (bs ! 8) (bs ! 9)\<rparr>"
    and "Pokemon_hp T self mem' = Inr (unpack_u16_from_bytes (bs ! 18) (bs ! 19))"
    and "Pokemon_status T self mem' = Inr (bs ! 20)"
    and "cdata_get self mem' (off_Pokemon_types (LAYOUT T)) = Inr (bs ! 22)"
    and "Pokemon_level T self mem' = Inr (bs ! 23)"
    and "\<And>j. j < 8 \<Longrightarrow> cdata_get self mem' (off_Pokemon_moves (LAYOUT T) + j) = Inr (bs ! (10 + j))"
proof -
  have len: "off_Pokemon_stats (LAYOUT T) + length bs \<le> c_len self"
    using L win bs by (simp add: pokemon_layout_ok_def)
  note rd = read_u16_written [OF _ _ len win(2) bs(2)] cdata_get_written [OF _ _ len win(2) bs(2)]
  show "Pokemon_stats T self mem' =
           Inr \<lparr>st_hp = unpack_u16_from_bytes (bs ! 0) (bs ! 1),
                st_atk = unpack_u16_from_bytes (bs ! 2) (bs ! 3),
                st_def = unpack_u16_from_bytes (bs ! 4) (bs ! 5),
                st_spe = unpack_u16_from_bytes (bs ! 6) (bs ! 7),
                st_spc = unpack_u16_from_bytes (bs ! 8) (bs ! 9)\<rparr>"
    using bs(1) by (simp add: Pokemon_stats_def Let_def m rd bind_e_def)
  show "Pokemon_hp T self mem' = Inr (unpack_u16_from_bytes (bs ! 18) (bs ! 19))"
    using L bs(1) by (simp add: Pokemon_hp_def m rd pokemon_layout_ok_def)
  show "Pokemon_status T self mem' = Inr (bs ! 20)"
    using L bs(1) by (simp add: Pokemon_status_def m rd pokemon_layout_ok_def)
  show "cdata_get self mem' (off_Pokemon_types (LAYOUT T)) = Inr (bs ! 22)"
    using L bs(1) by (simp add: m rd pokemon_layout_ok_def)
  show "Pokemon_level T self mem' = Inr (bs ! 23)"
    using L bs(1) by (simp add: Pokemon_level_def m rd pokemon_layout_ok_def)
  show "cdata_get self mem' (off_Pokemon_moves (LAYOUT T) + j) = Inr (bs ! (10 + j))" if "j < 8" for j
    using L bs(1) that by (simp add: m rd pokemon_layout_ok_def add.assoc)
qed

lemma moves_gen_reads:
  assumes rd: "\<And>j. j < 8 \<Longrightarrow> cdata_get self mem' (moff + j) = Inr (f j)"
    and "\<forall>n\<in>set ns. n < 8"
    and "\<forall>n\<in>set ns. f n \<noteq> 0 \<longrightarrow> MOVE_ID_LOOKUP T (f n) \<noteq> None"
  shows "moves_gen T self mem' moff ns =
           Inr (map (\<lambda>n. the (MOVE_ID_LOOKUP T (f n))) (filter (\<lambda>n. f n \<noteq> 0) ns))"
  using assms(2,3)
proof (induction ns)
  case Nil
  then show ?case by simp
next
  case (Cons n ns)
  then have "cdata_get self mem' (moff + n) = Inr (f n)"
    by (intro rd) simp
  with Cons show ?case
    by (auto simp: bind_e_def lookup_def)
qed

lemma pp_gen_reads:
  assumes rd: "\<And>j. j < 8 \<Longrightarrow> cdata_get self mem' (moff + j) = Inr (f j)"
    and "\<forall>n\<in>set ns. 1 \<le> n \<and> n < 8"
  shows "pp_gen self mem' moff ns = Inr (map f (filter (\<lambda>n. f (n - 1) \<noteq> 0) ns))"
  using assms(2)
proof (induction ns)
  case Nil
  then show ?case by simp
next
  case (Cons n ns)
  then have n: "1 \<le> n" "n < 8" by simp_all
  then have "moff + n - 1 = moff + (n - 1)" by simp
  moreover have "cdata_get self mem' (moff + (n - 1)) = Inr (f (n - 1))"
    using n by (intro rd) simp
  moreover have "cdata_get self mem' (moff + n) = Inr (f n)"
    using n by (intro rd)
  ultimately show ?case
    using Cons by (simp add: bind_e_def)
qed

lemma record_bytes_slots:
  "record_bytes T data st i1 i2 ! 10 = slot_id T (move_names data) 0"
  "record_bytes T data st i1 i2 ! 11 = slot_pp T (move_names data) (extra_key data x_move_pp) 0"
  "record_bytes T data st i1 i2 ! 12 = slot_id T (move_names data) 1"
  "record_bytes T data st i1 i2 ! 13 = slot_pp T (move_names data) (extra_key data x_move_pp) 1"
  "record_bytes T data st i1 i2 ! 14 = slot_id T (move_names data) 2"
  "record_bytes T data st i1 i2 ! 15 = slot_pp T (move_names data) (extra_key data x_move_pp) 2"
  "record_bytes T data st i1 i2 ! 16 = slot_id T (move_names data) 3"
  "record_bytes T data st i1 i2 ! 17 = slot_pp T (move_names data) (extra_key data x_move_pp) 3"
  by (simp_all add: record_bytes_def Let_def)

lemma slot_id_lookup:
  assumes "\<forall>m\<in>set names. \<exists>i. MOVE_IDS T m = Some i \<and> i \<noteq> 0 \<and> MOVE_ID_LOOKUP T i = Some m"
    and "slot_id T names k \<noteq> 0"
  shows "MOVE_ID_LOOKUP T (slot_id T names k) = Some (names ! k)"
proof -
  have k: "k < length names"
    using assms(2) by (auto simp: slot_id_def split: if_splits)
  then have "names ! k \<in> set names" by simp
  with assms(1) obtain i where "MOVE_IDS T (names ! k) = Some i" "MOVE_ID_LOOKUP T i = Some (names ! k)"
    by blast
  then show ?thesis using k by (simp add: slot_id_def)
qed

text \<open>The two move readers on a written record, for a moveset of non-zero ids.\<close>

lemma move_readers_of_written:
  assumes L: "pokemon_layout_ok (LAYOUT T)"
    and win: "c_len self = size_Pokemon (LAYOUT T)" "c_off self + c_len self \<le> length mem"
    and bs: "\<forall>x\<in>set (record_bytes T data st i1 i2). u8 x"
    and m: "mem' = write_bytes (c_off self + off_Pokemon_stats (LAYOUT T))
                     (map word_of_int (record_bytes T data st i1 i2)) mem"
    and n: "length (move_names data) \<le> 4"
    and ids: "\<forall>m\<in>set (move_names data). \<exists>i. MOVE_IDS T m = Some i \<and> i \<noteq> 0
                \<and> MOVE_ID_LOOKUP T i = Some m"
  shows "Pokemon_moves T self mem' = Inr (move_names data)"
    and "Pokemon_pp_left T self mem' =
           Inr (map (slot_pp T (move_names data) (extra_key data x_move_pp))
                  [0..<length (move_names data)])"
proof -
  let ?bs = "record_bytes T data st i1 i2"
  let ?f = "\<lambda>j. ?bs ! (10 + j)"
  have rd: "cdata_get self mem' (off_Pokemon_moves (LAYOUT T) + j) = Inr (?f j)" if "j < 8" for j
    using readers_of_written(6) [OF L win length_record_bytes bs m that] .
  have look: "\<forall>n\<in>set [0, 2, 4, 6]. ?f n \<noteq> 0 \<longrightarrow> MOVE_ID_LOOKUP T (?f n) \<noteq> None"
    using slot_id_lookup [OF ids] by (simp add: record_bytes_slots)
  have "Pokemon_moves T self mem' =
          Inr (map (\<lambda>n. the (MOVE_ID_LOOKUP T (?f n))) (filter (\<lambda>n. ?f n \<noteq> 0) [0, 2, 4, 6]))"
    unfolding Pokemon_moves_def using rd look by (intro moves_gen_reads) simp_all
  also have "\<dots> = Inr (move_names data)"
    using n
  proof (cases "move_names data" rule: length_le4_cases)
    case 1 then show ?thesis by (simp add: record_bytes_slots slot_id_def)
  next
    case (2 a) then show ?thesis using ids by (auto simp: record_bytes_slots slot_id_def)
  next
    case (3 a b) then show ?thesis using ids by (auto simp: record_bytes_slots slot_id_def)
  next
    case (4 a b c) then show ?thesis using ids by (auto simp: record_bytes_slots slot_id_def)
  next
    case (5 a b c d) then show ?thesis using ids by (auto simp: record_bytes_slots slot_id_def)
  qed
  finally show "Pokemon_moves T self mem' = Inr (move_names data)" .
  have "Pokemon_pp_left T self mem' = Inr (map ?f (filter (\<lambda>n. ?f (n - 1) \<noteq> 0) [1, 3, 5, 7]))"
    unfolding Pokemon_pp_left_def using rd by (intro pp_gen_reads) simp_all
  also have "\<dots> = Inr (map (slot_pp T (move_names data) (extra_key data x_move_pp))
                  [0..<length (move_names data)])"
    using n
  proof (cases "move_names data" rule: length_le4_cases)
    case 1 then show ?thesis by (simp add: record_bytes_slots slot_id_def)
  next
    case (2 a) then show ?thesis using ids by (auto simp: record_bytes_slots slot_id_def)
  next
    case (3 a b) then show ?thesis using ids by (auto simp: record_bytes_slots slot_id_def upt_rec numeral_2_eq_2 numeral_3_eq_3)
  next
    case (4 a b c) then show ?thesis using ids by (auto simp: record_bytes_slots slot_id_def upt_rec numeral_2_eq_2 numeral_3_eq_3)
  next
    case (5 a b c d) then show ?thesis using ids by (auto simp: record_bytes_slots slot_id_def upt_rec numeral_2_eq_2 numeral_3_eq_3)
  qed
  finally show "Pokemon_pp_left T self mem' =
           Inr (map (slot_pp T (move_names data) (extra_key data x_move_pp))
                  [0..<length (move_names data)])" .
qed



lemma andthen_NoneE:
  assumes "andthen a b m = (None, m')"
  obtains m1 where "a m = (None, m1)" "b m1 = (None, m')"
  using assms by (auto simp: andthen_def split: prod.splits option.splits)

lemma cdata_set_NoneD: "cdata_set c i v m = (None, m') \<Longrightarrow> u8 v"
  by (auto simp: cdata_set_def u8_def split: if_splits)

lemma py_assert_NoneD: "py_assert b m = (None, m') \<Longrightarrow> b"
  by (auto simp: py_assert_def raise_def split: if_splits)

lemma pack_u16_at_NoneD: "pack_u16_at c offset n m = (None, m') \<Longrightarrow> u16 n"
  by (auto simp: pack_u16_at_def pack_u16_as_bytes_def raise_def u16_def split: if_splits)

lemma pack_move_NoneD:
  assumes "pack_move T c names move_pp offset k m = (None, m')"
  shows "slot_ok T names move_pp k"
proof (cases "k < length names")
  case False
  then show ?thesis by (simp add: slot_ok_def)
next
  case True
  with assms obtain i p where ip: "MOVE_IDS T (names ! k) = Some i"
      "move_pp_of T (names ! k) i move_pp k = Inr p"
      "andthen (cdata_set c offset i) (cdata_set c (offset + 1) p) m = (None, m')"
    by (auto simp: pack_move_def raise_def split: option.splits sum.splits)
  from ip(3) have "u8 i" "u8 p"
    by (auto elim!: andthen_NoneE dest: cdata_set_NoneD)
  with ip show ?thesis by (auto simp: slot_ok_def)
qed

lemma pack_species_NoneD:
  "pack_species T c name offset m = (None, m') \<Longrightarrow> \<exists>sid. SPECIES_IDS T name = Some sid \<and> u8 sid"
  by (auto simp: pack_species_def raise_def split: option.splits dest: cdata_set_NoneD)

lemma pack_types_NoneD:
  "pack_types T c types offset m = (None, m') \<Longrightarrow>
     \<exists>i1 i2. list_index (TYPES T) (fst types) = Inr i1 \<and> list_index (TYPES T) (snd types) = Inr i2
        \<and> i1 < 16 \<and> i2 < 16"
  by (auto simp: pack_types_def bind_e_def raise_def pack_two_u4s_def
      split: sum.splits if_splits)

text \<open>A successful \<^verbatim>\<open>initialize\<close> has written the whole record.\<close>

lemma Pokemon_initialize_None:
  assumes ok: "Pokemon_initialize T self data mem = (None, mem')"
    and win: "c_len self = size_Pokemon (LAYOUT T)" "c_off self + c_len self \<le> length mem"
  shows "pokemon_layout_ok (LAYOUT T) \<and>
         (\<forall>k<4. slot_ok T (move_names data) (extra_key data x_move_pp) k) \<and>
         (\<exists>st i1 i2. (\<forall>x\<in>set (record_bytes T data st i1 i2). u8 x) \<and>
            mem' = write_bytes (c_off self + off_Pokemon_stats (LAYOUT T))
                     (map word_of_int (record_bytes T data st i1 i2)) mem)"
proof -
  let ?res = "resolve_species T (species_name data) (extra_key data x_stats)
                (extra_key data x_types) (or_default (extra_key data x_level) 100)
                (or_default (extra_key data x_dvs) default_dvs)
                (or_default (extra_key data x_exp) default_exp)"
  from ok obtain st t1 t2 where res: "?res = Inr (st, (t1, t2))"
    by (cases ?res) (auto simp: Pokemon_initialize_def Let_def raise_def)
  let ?o = "off_Pokemon_stats (LAYOUT T)"
  let ?mpp = "extra_key data x_move_pp"
  from ok have run: "seqs
               [pack_u16_at self ?o (st_hp st),
                pack_u16_at self (?o + 2) (st_atk st),
                pack_u16_at self (?o + 4) (st_def st),
                pack_u16_at self (?o + 6) (st_spe st),
                pack_u16_at self (?o + 8) (st_spc st),
                py_assert (?o + 10 = off_Pokemon_moves (LAYOUT T)),
                pack_move T self (move_names data) ?mpp (?o + 10) 0,
                pack_move T self (move_names data) ?mpp (?o + 12) 1,
                pack_move T self (move_names data) ?mpp (?o + 14) 2,
                pack_move T self (move_names data) ?mpp (?o + 16) 3,
                py_assert (?o + 18 = off_Pokemon_hp (LAYOUT T)),
                pack_u16_at self (?o + 18) (or_default (extra_key data x_hp) (st_hp st)),
                py_assert (?o + 20 = off_Pokemon_status (LAYOUT T)),
                cdata_set self (?o + 20) (or_default (extra_key data x_status) 0),
                py_assert (?o + 21 = off_Pokemon_species (LAYOUT T)),
                pack_species T self (species_name data) (?o + 21),
                py_assert (?o + 22 = off_Pokemon_types (LAYOUT T)),
                pack_types T self (t1, t2) (?o + 22),
                py_assert (?o + 23 = off_Pokemon_level (LAYOUT T)),
                cdata_set self (?o + 23) (or_default (extra_key data x_level) 100),
                py_assert (?o + 24 = size_Pokemon (LAYOUT T))] mem = (None, mem')"
    unfolding Pokemon_initialize_def Let_def res by simp
  from run have L: "pokemon_layout_ok (LAYOUT T)"
    unfolding seqs.simps
    by (elim andthen_NoneE) (auto dest!: py_assert_NoneD simp: pokemon_layout_ok_def)
  from run have st: "u16 (st_hp st)" "u16 (st_atk st)" "u16 (st_def st)" "u16 (st_spe st)"
      "u16 (st_spc st)" "u16 (or_default (extra_key data x_hp) (st_hp st))"
    unfolding seqs.simps
    by (elim andthen_NoneE, auto dest!: pack_u16_at_NoneD)+
  from run have sl: "u8 (or_default (extra_key data x_status) 0)"
      "u8 (or_default (extra_key data x_level) 100)"
    unfolding seqs.simps
    by (elim andthen_NoneE, auto dest!: cdata_set_NoneD)+
  from run have slots: "slot_ok T (move_names data) ?mpp 0" "slot_ok T (move_names data) ?mpp 1"
      "slot_ok T (move_names data) ?mpp 2" "slot_ok T (move_names data) ?mpp 3"
    unfolding seqs.simps
    by (elim andthen_NoneE, auto dest!: pack_move_NoneD)+
  from run obtain sid where sid: "SPECIES_IDS T (species_name data) = Some sid" "u8 sid"
    unfolding seqs.simps
    by (elim andthen_NoneE) (auto dest!: pack_species_NoneD)
  from run obtain i1 i2 where ty: "list_index (TYPES T) t1 = Inr i1"
      "list_index (TYPES T) t2 = Inr i2" "i1 < 16" "i2 < 16"
    unfolding seqs.simps
    by (elim andthen_NoneE) (auto dest!: pack_types_NoneD)
  have "Pokemon_initialize T self data mem =
           (None, write_bytes (c_off self + ?o) (map word_of_int (record_bytes T data st i1 i2)) mem)"
    by (rule Pokemon_initialize_ok [OF L win res st sl slots sid ty])
  with ok have "mem' = write_bytes (c_off self + ?o)
                         (map word_of_int (record_bytes T data st i1 i2)) mem"
    by simp
  moreover have "\<forall>x\<in>set (record_bytes T data st i1 i2). u8 x"
    by (rule record_bytes_u8 [OF st sl slots sid ty(3,4)])
  moreover have "\<forall>k<4. slot_ok T (move_names data) ?mpp k"
    using slots by (auto simp: less_Suc_eq numeral_eq_Suc)
  ultimately show ?thesis
    using L by blast
qed

text \<open>
  Claim C7. After a successful \<^verbatim>\<open>initialize\<close> with a moveset of \<open>N \<le> 4\<close> moves, each
  of a non-zero id that \<^verbatim>\<open>MOVE_ID_LOOKUP\<close> maps back to its name, \<^verbatim>\<open>moves()\<close> returns
  the \<open>N\<close> names in the moveset's order and \<^verbatim>\<open>pp_left()\<close> returns \<open>N\<close> entries, the
  \<open>k\<close>-th being the PP of the \<open>k\<close>-th move; the unused trailing slots contribute no
  entry.
\<close>

theorem moves_pp_left_length:
  assumes ok: "Pokemon_initialize T self data mem = (None, mem')"
    and win: "c_len self = size_Pokemon (LAYOUT T)" "c_off self + c_len self \<le> length mem"
    and n: "length (move_names data) \<le> 4"
    and ids: "\<forall>m\<in>set (move_names data). \<exists>i. MOVE_IDS T m = Some i \<and> i \<noteq> 0
                \<and> MOVE_ID_LOOKUP T i = Some m"
  shows "Pokemon_moves T self mem' = Inr (move_names data)
         \<and> (\<exists>pps. Pokemon_pp_left T self mem' = Inr pps
               \<and> length pps = length (move_names data)
               \<and> (\<forall>k<length (move_names data).
                     \<exists>i. MOVE_IDS T (move_names data ! k) = Some i
                       \<and> move_pp_of T (move_names data ! k) i (extra_key data x_move_pp) k
                           = Inr (pps ! k)))"
proof -
  let ?names = "move_names data"
  let ?mpp = "extra_key data x_move_pp"
  from Pokemon_initialize_None [OF ok win] obtain st i1 i2 where
    L: "pokemon_layout_ok (LAYOUT T)"
    and slots: "\<forall>k<4. slot_ok T ?names ?mpp k"
    and bs: "\<forall>x\<in>set (record_bytes T data st i1 i2). u8 x"
    and m: "mem' = write_bytes (c_off self + off_Pokemon_stats (LAYOUT T))
                     (map word_of_int (record_bytes T data st i1 i2)) mem"
    by blast
  note mrd = move_readers_of_written [OF L win bs m n ids]
  let ?pps = "map (slot_pp T ?names ?mpp) [0..<length ?names]"
  have "\<exists>i. MOVE_IDS T (?names ! k) = Some i \<and> move_pp_of T (?names ! k) i ?mpp k = Inr (?pps ! k)"
    if "k < length ?names" for k
  proof -
    from that n have "k < 4" by simp
    with slots that obtain i p where "MOVE_IDS T (?names ! k) = Some i"
        "move_pp_of T (?names ! k) i ?mpp k = Inr p"
      by (auto simp: slot_ok_def)
    then show ?thesis
      using that by (simp add: slot_pp_def slot_id_def)
  qed
  then show ?thesis
    using mrd by auto
qed

lemma isqrt_65535: "isqrt 65535 = 255"
  by (rule isqrt_unique) simp_all

lemma calc_stats_Mew:
  "calc_stats \<lparr>st_hp = 100, st_atk = 100, st_def = 100, st_spe = 100, st_spc = 100\<rparr> 100
     default_dvs default_exp
   = Inr \<lparr>st_hp = 403, st_atk = 298, st_def = 298, st_spe = 298, st_spc = 298\<rparr>"
  by (simp add: calc_stats_def statcalc_def isqrt_65535 trunc_div_def default_dvs_def
      default_exp_def bind_e_def Let_def)

lemma sample_pokemon_new:
  "Pokemon_new sample_tables sample_pokemon =
     (None, [147, 1, 42, 1, 42, 1, 42, 1, 42, 1, 94, 16, 57, 24, 0, 0, 0, 0, 147, 1,
             0, 151, 204, 100])"
  by (simp add: Pokemon_new_def Pokemon_init_def Pokemon_initialize_def sample_tables_def
      sample_layout_def sample_pokemon_def ffi_new_def extra_key_def or_default_def
      resolve_species_def calc_stats_Mew species_types_pair_def list_get_def bind_e_def
      pack_u16_at_def pack_u16_as_bytes_def cdata_set_pair_def cdata_set_def andthen_def
      py_assert_def ok_def raise_def pack_move_def move_pp_of_def lookup_def pack_species_def
      pack_types_def pack_two_u4s_def Let_def numeral_eq_Suc)

theorem moves_pp_left_length_witness:
  "Pokemon_moves sample_tables \<lparr>c_off = 0, c_len = 24\<rparr> (snd (Pokemon_new sample_tables sample_pokemon))
     = Inr [''Psychic'', ''Surf'']
   \<and> (\<exists>pps. Pokemon_pp_left sample_tables \<lparr>c_off = 0, c_len = 24\<rparr>
               (snd (Pokemon_new sample_tables sample_pokemon)) = Inr pps
           \<and> length pps = 2)"
proof -
  have init: "Pokemon_initialize sample_tables \<lparr>c_off = 0, c_len = 24\<rparr> sample_pokemon (ffi_new 24)
          = (None, snd (Pokemon_new sample_tables sample_pokemon))"
    using sample_pokemon_new
    by (simp add: Pokemon_new_def Pokemon_init_def sample_tables_def sample_layout_def Let_def)
  have "Pokemon_moves sample_tables \<lparr>c_off = 0, c_len = 24\<rparr>
          (snd (Pokemon_new sample_tables sample_pokemon)) = Inr (move_names sample_pokemon)
         \<and> (\<exists>pps. Pokemon_pp_left sample_tables \<lparr>c_off = 0, c_len = 24\<rparr>
                    (snd (Pokemon_new sample_tables sample_pokemon)) = Inr pps
               \<and> length pps = length (move_names sample_pokemon)
               \<and> (\<forall>k<length (move_names sample_pokemon).
                     \<exists>i. MOVE_IDS sample_tables (move_names sample_pokemon ! k) = Some i
                       \<and> move_pp_of sample_tables (move_names sample_pokemon ! k) i
                            (extra_key sample_pokemon x_move_pp) k = Inr (pps ! k)))"
    by (rule moves_pp_left_length [OF init])
       (simp_all add: sample_pokemon_def sample_tables_def sample_layout_def ffi_new_def)
  then show ?thesis
    by (auto simp: sample_pokemon_def)
qed

section \<open>What a failed Pokemon.initialize has written\<close>

lemma writes_within_ok: "writes_within S ok"
  by (simp add: writes_within_def ok_def)

lemma writes_within_raise: "writes_within S (raise e)"
  by (simp add: writes_within_def raise_def)

lemma writes_within_assert: "writes_within S (py_assert b)"
  by (simp add: py_assert_def writes_within_ok writes_within_raise)

lemma writes_within_set: "c_off c + i \<in> S \<Longrightarrow> writes_within S (cdata_set c i v)"
  by (auto simp: writes_within_def cdata_set_def nth_list_update)

lemma writes_within_andthen:
  assumes "writes_within S a" "writes_within S b"
  shows "writes_within S (andthen a b)"
proof -
  have "length (snd (andthen a b m)) = length m \<and> (\<forall>i. i \<notin> S \<longrightarrow> snd (andthen a b m) ! i = m ! i)"
    for m
  proof (cases "a m")
    case (Pair r m1)
    have a: "length m1 = length m" "\<forall>i. i \<notin> S \<longrightarrow> m1 ! i = m ! i"
      using assms(1) Pair by (auto simp: writes_within_def dest: spec [of _ m])
    show ?thesis
    proof (cases r)
      case None
      have "length (snd (b m1)) = length m1" "\<forall>i. i \<notin> S \<longrightarrow> snd (b m1) ! i = m1 ! i"
        using assms(2) by (auto simp: writes_within_def)
      then show ?thesis
        using a Pair None by (simp add: andthen_def)
    next
      case (Some e)
      then show ?thesis using a Pair by (simp add: andthen_def)
    qed
  qed
  then show ?thesis
    by (simp add: writes_within_def)
qed

lemma writes_within_pack_u16_at:
  "c_off c + offset \<in> S \<Longrightarrow> c_off c + (offset + 1) \<in> S \<Longrightarrow> writes_within S (pack_u16_at c offset n)"
  by (auto simp: pack_u16_at_def cdata_set_pair_def
      intro!: writes_within_raise writes_within_andthen writes_within_set split: sum.splits)

lemma writes_within_pack_move:
  "c_off c + offset \<in> S \<Longrightarrow> c_off c + (offset + 1) \<in> S \<Longrightarrow>
     writes_within S (pack_move T c names move_pp offset k)"
  by (auto simp: pack_move_def
      intro!: writes_within_raise writes_within_andthen writes_within_set
      split: sum.splits option.splits)

lemma fails_raise: "fails (raise e)"
  by (simp add: fails_def raise_def)

lemma fails_andthen_right: "fails b \<Longrightarrow> fails (andthen a b)"
  by (auto simp: fails_def andthen_def split: prod.splits option.splits)

lemma andthen_raise: "andthen (raise e) b = raise e"
  by (rule ext) (simp add: andthen_def raise_def)

lemma pack_move_unknown:
  "k < length names \<Longrightarrow> MOVE_IDS T (names ! k) = None \<Longrightarrow>
     pack_move T c names move_pp offset k = raise KeyError"
  by (simp add: pack_move_def)

lemma unknown_move_frame:
  assumes k: "k < length (move_names data)" "k < 4"
    and unk: "MOVE_IDS T (move_names data ! k) = None"
  shows "writes_within {c_off self + off_Pokemon_stats (LAYOUT T) ..<
                        c_off self + off_Pokemon_stats (LAYOUT T) + 10 + 2 * k}
           (Pokemon_initialize T self data)
         \<and> fails (Pokemon_initialize T self data)"
proof -
  let ?res = "resolve_species T (species_name data) (extra_key data x_stats)
                (extra_key data x_types) (or_default (extra_key data x_level) 100)
                (or_default (extra_key data x_dvs) default_dvs)
                (or_default (extra_key data x_exp) default_exp)"
  note ww = writes_within_andthen writes_within_pack_u16_at writes_within_pack_move
    writes_within_assert writes_within_raise
  show ?thesis
  proof (cases ?res)
    case (Inl e)
    then show ?thesis
      by (simp add: Pokemon_initialize_def Let_def writes_within_raise fails_raise)
  next
    case (Inr p)
    obtain st ty where p: "p = (st, ty)" by (cases p)
    from k(2) have "k = 0 \<or> k = 1 \<or> k = 2 \<or> k = 3" by arith
    then show ?thesis
    proof (elim disjE)
      assume "k = 0"
      with k unk have "pack_move T self (move_names data) (extra_key data x_move_pp)
                         (off_Pokemon_stats (LAYOUT T) + 10) 0 = raise KeyError"
        by (simp add: pack_move_unknown)
      then show ?thesis
        unfolding Pokemon_initialize_def Let_def Inr p
        apply (simp add: andthen_raise \<open>k = 0\<close>)
        apply (intro conjI)
         apply (intro ww; simp)
        apply (intro fails_andthen_right fails_raise)
        done
    next
      assume "k = 1"
      with k unk have "pack_move T self (move_names data) (extra_key data x_move_pp)
                         (off_Pokemon_stats (LAYOUT T) + 12) 1 = raise KeyError"
        by (simp add: pack_move_unknown)
      then show ?thesis
        unfolding Pokemon_initialize_def Let_def Inr p
        apply (simp add: andthen_raise \<open>k = 1\<close>)
        apply (intro conjI)
         apply (intro ww; simp)
        apply (intro fails_andthen_right fails_raise)
        done
    next
      assume "k = 2"
      with k unk have "pack_move T self (move_names data) (extra_key data x_move_pp)
                         (off_Pokemon_stats (LAYOUT T) + 14) 2 = raise KeyError"
        by (simp add: pack_move_unknown)
      then show ?thesis
        unfolding Pokemon_initialize_def Let_def Inr p
        apply (simp add: andthen_raise \<open>k = 2\<close>)
        apply (intro conjI)
         apply (intro ww; simp)
        apply (intro fails_andthen_right fails_raise)
        done
    next
      assume "k = 3"
      with k unk have "pack_move T self (move_names data) (extra_key data x_move_pp)
                         (off_Pokemon_stats (LAYOUT T) + 16) 3 = raise KeyError"
        by (simp add: pack_move_unknown)
      then show ?thesis
        unfolding Pokemon_initialize_def Let_def Inr p
        apply (simp add: andthen_raise \<open>k = 3\<close>)
        apply (intro conjI)
         apply (intro ww; simp)
        apply (intro fails_andthen_right fails_raise)
        done
    qed
  qed
qed

lemma sample_unknown_move_run:
  "Pokemon_initialize sample_tables \<lparr>c_off = 0, c_len = 24\<rparr> sample_unknown_move (ffi_new 24) =
     (Some KeyError, [147, 1, 42, 1, 42, 1, 42, 1, 42, 1, 94, 16, 0, 0, 0, 0, 0, 0, 0, 0,
                      0, 0, 0, 0])"
  by (simp add: Pokemon_initialize_def sample_tables_def
      sample_layout_def sample_unknown_move_def ffi_new_def extra_key_def or_default_def
      resolve_species_def calc_stats_Mew species_types_pair_def list_get_def bind_e_def
      pack_u16_at_def pack_u16_as_bytes_def cdata_set_pair_def cdata_set_def andthen_def
      py_assert_def ok_def raise_def pack_move_def move_pp_of_def lookup_def
      Let_def numeral_eq_Suc)

text \<open>
  Claim C3, as stated, fails: with the second move name unknown, \<^verbatim>\<open>initialize\<close> raises
  \<^verbatim>\<open>KeyError\<close> after it has written the five stats and the first move slot into a
  buffer that was all zero.
\<close>

theorem unknown_move_mutates_buffer:
  "MOVE_IDS sample_tables (move_names sample_unknown_move ! 1) = None
   \<and> fst (Pokemon_initialize sample_tables \<lparr>c_off = 0, c_len = 24\<rparr> sample_unknown_move
            (ffi_new 24)) = Some KeyError
   \<and> snd (Pokemon_initialize sample_tables \<lparr>c_off = 0, c_len = 24\<rparr> sample_unknown_move
            (ffi_new 24)) \<noteq> ffi_new 24"
  by (simp add: sample_unknown_move_run)
     (simp add: sample_tables_def sample_unknown_move_def ffi_new_def numeral_eq_Suc)

text \<open>
  Claim C3, amended. When the name in move slot \<open>k\<close> is absent from \<^verbatim>\<open>MOVE_IDS\<close>,
  \<^verbatim>\<open>initialize\<close> fails, and at most the ten stat bytes and the \<open>2k\<close> bytes of the
  earlier move slots have been written: the failing slot, the later slots, HP, status,
  species, types, level and every byte outside the record are as before the call.
\<close>

theorem unknown_move_leaves_tail:
  assumes "k < length (move_names data)" "k < 4"
    and "MOVE_IDS T (move_names data ! k) = None"
    and "Pokemon_initialize T self data mem = (r, mem')"
  shows "r \<noteq> None \<and> length mem' = length mem
         \<and> (\<forall>i. i < c_off self + off_Pokemon_stats (LAYOUT T)
                  \<or> c_off self + off_Pokemon_stats (LAYOUT T) + 10 + 2 * k \<le> i
               \<longrightarrow> mem' ! i = mem ! i)"
  using unknown_move_frame [OF assms(1-3), of self] assms(4)
  by (auto simp: writes_within_def fails_def dest: spec [of _ mem])

theorem unknown_move_leaves_tail_witness:
  "fst (Pokemon_initialize sample_tables \<lparr>c_off = 0, c_len = 24\<rparr> sample_unknown_move (ffi_new 24))
     \<noteq> None
   \<and> snd (Pokemon_initialize sample_tables \<lparr>c_off = 0, c_len = 24\<rparr> sample_unknown_move
            (ffi_new 24)) ! 12 = ffi_new 24 ! 12
   \<and> snd (Pokemon_initialize sample_tables \<lparr>c_off = 0, c_len = 24\<rparr> sample_unknown_move
            (ffi_new 24)) ! 23 = ffi_new 24 ! 23"
proof -
  have k: "1 < length (move_names sample_unknown_move)" "(1::nat) < 4"
    "MOVE_IDS sample_tables (move_names sample_unknown_move ! 1) = None"
    by (simp_all add: sample_unknown_move_def sample_tables_def)
  show ?thesis
    using unknown_move_leaves_tail [OF k surjective_pairing, of "\<lparr>c_off = 0, c_len = 24\<rparr>" "ffi_new 24"]
    by (simp add: sample_tables_def sample_layout_def)
qed

section \<open>Properties of Side.new\<close>

lemma length_cdata_bytes:
  "c_off (c::cdata) + c_len c \<le> length mem \<Longrightarrow> length (cdata_bytes c mem) = c_len c"
  by (simp add: cdata_bytes_def)

lemma write_bytes_own:
  assumes a: "c_off (c::cdata) + c_len c \<le> length mem"
  shows "write_bytes (c_off c) (cdata_bytes c mem) mem = mem"
proof -
  have "take (c_len c) (drop (c_off c) mem) @ drop (c_off c + c_len c) mem = drop (c_off c) mem"
    by (metis add.commute append_take_drop_id drop_drop)
  then show ?thesis
    using a by (simp add: write_bytes_def cdata_bytes_def)
qed

lemma cdata_bytes_write_bytes:
  "length b = c_len (c::cdata) \<Longrightarrow> c_off c + c_len c \<le> length mem \<Longrightarrow>
     cdata_bytes c (write_bytes (c_off c) b mem) = b"
  by (simp add: cdata_bytes_def write_bytes_def)

lemma write_bytes_twice:
  "length b1 = length b2 \<Longrightarrow> b + length b1 \<le> length mem \<Longrightarrow>
     write_bytes b b2 (write_bytes b b1 mem) = write_bytes b b2 mem"
  by (simp add: write_bytes_def)

lemma write_bytes_update:
  assumes "i < c_len (c::cdata)" "c_off c + c_len c \<le> length mem"
  shows "mem[c_off c + i := w] = write_bytes (c_off c) ((cdata_bytes c mem)[i := w]) mem"
proof -
  have "mem[c_off c + i := w] = (write_bytes (c_off c) (cdata_bytes c mem) mem)[c_off c + i := w]"
    using assms by (simp add: write_bytes_own)
  also have "\<dots> = write_bytes (c_off c) ((cdata_bytes c mem)[i := w]) mem"
    using assms by (simp add: write_bytes_def cdata_bytes_def list_update_append)
  finally show ?thesis .
qed

lemma relocatable_ok: "relocatable (\<lambda>c. ok)"
  by (simp add: relocatable_def ok_def length_cdata_bytes write_bytes_own)

lemma relocatable_raise: "relocatable (\<lambda>c. raise e)"
  by (simp add: relocatable_def raise_def length_cdata_bytes write_bytes_own)

lemma relocatable_assert: "relocatable (\<lambda>c. py_assert b)"
  by (simp add: py_assert_def relocatable_ok relocatable_raise)

lemma relocatable_set: "relocatable (\<lambda>c. cdata_set c i v)"
  unfolding relocatable_def
proof (intro allI impI)
  fix c :: cdata and mem :: memory
  assume win: "c_off c + c_len c \<le> length mem"
  note len = length_cdata_bytes [OF win]
  show "length (snd (cdata_set \<lparr>c_off = 0, c_len = c_len c\<rparr> i v (cdata_bytes c mem))) = c_len c \<and>
        cdata_set c i v mem =
          (fst (cdata_set \<lparr>c_off = 0, c_len = c_len c\<rparr> i v (cdata_bytes c mem)),
           write_bytes (c_off c)
             (snd (cdata_set \<lparr>c_off = 0, c_len = c_len c\<rparr> i v (cdata_bytes c mem))) mem)"
  proof (cases "i < c_len c \<and> 0 \<le> v \<and> v \<le> 255")
    case True
    then have "mem[c_off c + i := word_of_int v]
                 = write_bytes (c_off c) ((cdata_bytes c mem)[i := word_of_int v]) mem"
      using win by (intro write_bytes_update) simp_all
    then show ?thesis
      using True win len by (simp add: cdata_set_def)
  next
    case False
    then show ?thesis
      using win len by (auto simp: cdata_set_def write_bytes_own)
  qed
qed

lemma relocatable_andthen:
  assumes A: "relocatable A" and B: "relocatable B"
  shows "relocatable (\<lambda>c. andthen (A c) (B c))"
  unfolding relocatable_def
proof (intro allI impI)
  fix c :: cdata and mem :: memory
  assume win: "c_off c + c_len c \<le> length mem"
  let ?c0 = "\<lparr>c_off = 0, c_len = c_len c\<rparr>"
  obtain r b1 where a0: "A ?c0 (cdata_bytes c mem) = (r, b1)" by (cases "A ?c0 (cdata_bytes c mem)")
  from A win a0 have a: "length b1 = c_len c" "A c mem = (r, write_bytes (c_off c) b1 mem)"
    by (auto simp: relocatable_def dest!: spec [of _ c] spec [of _ mem])
  let ?m1 = "write_bytes (c_off c) b1 mem"
  have len1: "length ?m1 = length mem"
    using a(1) win by (simp add: length_write_bytes)
  have bytes1: "cdata_bytes c ?m1 = b1"
    using a(1) win by (simp add: cdata_bytes_write_bytes)
  from B win len1 have b: "length (snd (B ?c0 (cdata_bytes c ?m1))) = c_len c"
      "B c ?m1 = (fst (B ?c0 (cdata_bytes c ?m1)),
                  write_bytes (c_off c) (snd (B ?c0 (cdata_bytes c ?m1))) ?m1)"
    by (auto simp: relocatable_def dest!: spec [of _ c] spec [of _ ?m1])
  show "length (snd (andthen (A ?c0) (B ?c0) (cdata_bytes c mem))) = c_len c \<and>
        andthen (A c) (B c) mem =
          (fst (andthen (A ?c0) (B ?c0) (cdata_bytes c mem)),
           write_bytes (c_off c) (snd (andthen (A ?c0) (B ?c0) (cdata_bytes c mem))) mem)"
  proof (cases r)
    case (Some e)
    then show ?thesis using a a0 by (simp add: andthen_def)
  next
    case None
    then show ?thesis
      using a a0 b bytes1 win by (simp add: andthen_def write_bytes_twice)
  qed
qed

lemma relocatable_if_len:
  assumes A: "relocatable A" and B: "relocatable B"
  shows "relocatable (\<lambda>c. if P (c_len c) then A c else B c)"
  unfolding relocatable_def
proof (intro allI impI)
  fix c :: cdata and mem :: memory
  assume win: "c_off c + c_len c \<le> length mem"
  let ?c0 = "\<lparr>c_off = 0, c_len = c_len c\<rparr>"
  from A win have a: "length (snd (A ?c0 (cdata_bytes c mem))) = c_len c \<and>
        A c mem = (fst (A ?c0 (cdata_bytes c mem)),
                   write_bytes (c_off c) (snd (A ?c0 (cdata_bytes c mem))) mem)"
    unfolding relocatable_def by blast
  from B win have b: "length (snd (B ?c0 (cdata_bytes c mem))) = c_len c \<and>
        B c mem = (fst (B ?c0 (cdata_bytes c mem)),
                   write_bytes (c_off c) (snd (B ?c0 (cdata_bytes c mem))) mem)"
    unfolding relocatable_def by blast
  show "length (snd ((if P (c_len ?c0) then A ?c0 else B ?c0) (cdata_bytes c mem))) = c_len c \<and>
        (if P (c_len c) then A c else B c) mem =
          (fst ((if P (c_len ?c0) then A ?c0 else B ?c0) (cdata_bytes c mem)),
           write_bytes (c_off c)
             (snd ((if P (c_len ?c0) then A ?c0 else B ?c0) (cdata_bytes c mem))) mem)"
    using a b by (cases "P (c_len c)") simp_all
qed

lemma relocatable_set_pair: "relocatable (\<lambda>c. cdata_set_pair c i p)"
proof -
  have "relocatable (\<lambda>c. if i + 2 \<le> c_len c
                         then andthen (cdata_set c i (fst p)) (cdata_set c (i + 1) (snd p))
                         else raise IndexError)"
    by (intro relocatable_if_len [where P = "\<lambda>n. i + 2 \<le> n"] relocatable_andthen
        relocatable_set relocatable_raise)
  then show ?thesis
    by (simp add: cdata_set_pair_def [abs_def])
qed

lemma relocatable_pack_u16_at: "relocatable (\<lambda>c. pack_u16_at c offset n)"
  by (cases "pack_u16_as_bytes n")
     (simp_all add: pack_u16_at_def relocatable_raise relocatable_set_pair)

lemma relocatable_pack_move: "relocatable (\<lambda>c. pack_move T c names move_pp offset k)"
proof (cases "length names \<le> k")
  case True
  then show ?thesis
    by (simp add: pack_move_def relocatable_andthen relocatable_set)
next
  case False
  show ?thesis
  proof (cases "MOVE_IDS T (names ! k)")
    case None
    with False show ?thesis by (simp add: pack_move_def relocatable_raise)
  next
    case (Some move_id)
    with False show ?thesis
      by (cases "move_pp_of T (names ! k) move_id move_pp k")
         (simp_all add: pack_move_def relocatable_raise relocatable_andthen relocatable_set)
  qed
qed

lemma relocatable_pack_species: "relocatable (\<lambda>c. pack_species T c name offset)"
  by (cases "SPECIES_IDS T name")
     (simp_all add: pack_species_def relocatable_raise relocatable_set)

lemma relocatable_pack_types: "relocatable (\<lambda>c. pack_types T c types offset)"
  unfolding pack_types_def
  by (cases "bind_e (list_index (TYPES T) (fst types))
                 (\<lambda>t1. bind_e (list_index (TYPES T) (snd types))
                        (\<lambda>t2. pack_two_u4s (int t1) (int t2)))")
     (simp_all add: relocatable_raise relocatable_set)

lemma relocatable_Pokemon_initialize: "relocatable (\<lambda>c. Pokemon_initialize T c data)"
proof (cases "resolve_species T (species_name data) (extra_key data x_stats)
                (extra_key data x_types) (or_default (extra_key data x_level) 100)
                (or_default (extra_key data x_dvs) default_dvs)
                (or_default (extra_key data x_exp) default_exp)")
  case (Inl e)
  then show ?thesis
    by (simp add: Pokemon_initialize_def Let_def relocatable_raise)
next
  case (Inr p)
  obtain st ty where p: "p = (st, ty)" by (cases p)
  show ?thesis
    unfolding Pokemon_initialize_def Let_def Inr p
    apply simp
    apply (intro relocatable_andthen relocatable_ok relocatable_assert
        relocatable_set relocatable_pack_u16_at relocatable_pack_move relocatable_pack_species
        relocatable_pack_types)
    done
qed

lemma make_team_views:
  "offset + k * size_Pokemon (LAYOUT T) \<le> c_len bytes \<Longrightarrow>
     make_team T bytes offset k =
       Inr (map (\<lambda>i. \<lparr>c_off = c_off bytes + offset + i * size_Pokemon (LAYOUT T),
                      c_len = size_Pokemon (LAYOUT T)\<rparr>) [0..<k])"
proof (induction k arbitrary: offset)
  case 0
  then show ?case by simp
next
  case (Suc k)
  then have "offset + size_Pokemon (LAYOUT T) + k * size_Pokemon (LAYOUT T) \<le> c_len bytes"
    by simp
  from Suc.IH [OF this] Suc.prems show ?case
    by (simp add: bind_e_def cdata_slice_def Pokemon_init_def map_upt_Suc add.assoc
        del: upt_Suc)
qed

lemma Side_init_views:
  assumes "side_layout_ok (LAYOUT T)"
  shows "Side_init T \<lparr>c_off = 0, c_len = size_Side (LAYOUT T)\<rparr> =
           Inr \<lparr>side_bytes = \<lparr>c_off = 0, c_len = size_Side (LAYOUT T)\<rparr>,
                side_team = map (team_slot (LAYOUT T)) [0..<6]\<rparr>"
proof -
  have "make_team T \<lparr>c_off = 0, c_len = size_Side (LAYOUT T)\<rparr> (off_Side_pokemon (LAYOUT T)) 6 =
          Inr (map (\<lambda>i. \<lparr>c_off = c_off \<lparr>c_off = 0, c_len = size_Side (LAYOUT T)\<rparr>
                              + off_Side_pokemon (LAYOUT T) + i * size_Pokemon (LAYOUT T),
                         c_len = size_Pokemon (LAYOUT T)\<rparr>) [0..<6])"
    using assms by (intro make_team_views) (simp add: side_layout_ok_def)
  then show ?thesis
    using assms by (simp add: Side_init_def Let_def bind_e_def side_layout_ok_def team_slot_def)
qed

lemma nth_write_bytes_outside:
  "b + length bs \<le> length mem \<Longrightarrow> i < b \<or> b + length bs \<le> i \<Longrightarrow>
     write_bytes b bs mem ! i = mem ! i"
  by (auto simp: write_bytes_def nth_append)

lemma cdata_bytes_cong:
  assumes "length m' = length m" "c_off (c::cdata) + c_len c \<le> length m"
    and "\<forall>i. c_off c \<le> i \<and> i < c_off c + c_len c \<longrightarrow> m' ! i = m ! i"
  shows "cdata_bytes c m' = cdata_bytes c m"
  using assms by (intro nth_equalityI) (simp_all add: cdata_bytes_def)

lemma slots_disjoint:
  assumes "i \<noteq> j"
  shows "c_off (team_slot L j) + c_len (team_slot L j) \<le> c_off (team_slot L i)
         \<or> c_off (team_slot L i) + c_len (team_slot L i) \<le> c_off (team_slot L j)"
proof (cases "i < j")
  case True
  then have "Suc i * size_Pokemon L \<le> j * size_Pokemon L"
    by (intro mult_le_mono1) simp
  then show ?thesis by (simp add: team_slot_def)
next
  case False
  with assms have "Suc j * size_Pokemon L \<le> i * size_Pokemon L"
    by (intro mult_le_mono1) simp
  then show ?thesis by (simp add: team_slot_def)
qed

lemma slot_in_bounds:
  assumes "j < 6" "off_Side_pokemon L + 6 * size_Pokemon L \<le> n"
  shows "c_off (team_slot L j) + c_len (team_slot L j) \<le> n"
proof -
  have "Suc j * size_Pokemon L \<le> 6 * size_Pokemon L"
    using assms(1) by (intro mult_le_mono1) simp
  then have "j * size_Pokemon L + size_Pokemon L \<le> 6 * size_Pokemon L"
    by (simp only: mult_Suc add.commute)
  with assms(2) have "off_Side_pokemon L + j * size_Pokemon L + size_Pokemon L \<le> n"
    by linarith
  then show ?thesis by (simp add: team_slot_def)
qed

lemma other_slot_unchanged:
  assumes "i \<noteq> j" "i < 6" "j < 6" "off_Side_pokemon L + 6 * size_Pokemon L \<le> length mem"
    and "length b = size_Pokemon L"
  shows "cdata_bytes (team_slot L j) (write_bytes (c_off (team_slot L i)) b mem)
           = cdata_bytes (team_slot L j) mem"
proof -
  have bi: "c_off (team_slot L i) + length b \<le> length mem"
    using slot_in_bounds [OF assms(2,4)] assms(5) by (simp add: team_slot_def)
  have bj: "c_off (team_slot L j) + c_len (team_slot L j) \<le> length mem"
    by (rule slot_in_bounds [OF assms(3,4)])
  have len: "length (write_bytes (c_off (team_slot L i)) b mem) = length mem"
    using bi by (rule length_write_bytes)
  show ?thesis
  proof (rule cdata_bytes_cong [OF len bj], intro allI impI)
    fix n
    assume n: "c_off (team_slot L j) \<le> n \<and> n < c_off (team_slot L j) + c_len (team_slot L j)"
    have "n < c_off (team_slot L i) \<or> c_off (team_slot L i) + length b \<le> n"
      using slots_disjoint [OF assms(1), of L] n assms(5) by (auto simp: team_slot_def)
    then show "write_bytes (c_off (team_slot L i)) b mem ! n = mem ! n"
      by (rule nth_write_bytes_outside [OF bi])
  qed
qed

lemma Pokemon_new_eq:
  "Pokemon_new T d =
     Pokemon_initialize T \<lparr>c_off = 0, c_len = size_Pokemon (LAYOUT T)\<rparr> d
       (ffi_new (size_Pokemon (LAYOUT T)))"
  by (simp add: Pokemon_new_def Pokemon_init_def Let_def)

text \<open>Initializing through the window of a zero slot is \<^verbatim>\<open>Pokemon.new\<close> in place.\<close>

lemma initialize_zero_slot:
  assumes "i < 6" "off_Side_pokemon (LAYOUT T) + 6 * size_Pokemon (LAYOUT T) \<le> length mem"
    and "cdata_bytes (team_slot (LAYOUT T) i) mem = ffi_new (size_Pokemon (LAYOUT T))"
  shows "Pokemon_initialize T (team_slot (LAYOUT T) i) d mem =
           (fst (Pokemon_new T d),
            write_bytes (c_off (team_slot (LAYOUT T) i)) (snd (Pokemon_new T d)) mem)"
    and "length (snd (Pokemon_new T d)) = size_Pokemon (LAYOUT T)"
proof -
  let ?c = "team_slot (LAYOUT T) i"
  have win: "c_off ?c + c_len ?c \<le> length mem"
    by (rule slot_in_bounds [OF assms(1,2)])
  have c0: "\<lparr>c_off = 0, c_len = c_len ?c\<rparr> = \<lparr>c_off = 0, c_len = size_Pokemon (LAYOUT T)\<rparr>"
    by (simp add: team_slot_def)
  from relocatable_Pokemon_initialize [of T d] win
  have "length (snd (Pokemon_initialize T \<lparr>c_off = 0, c_len = c_len ?c\<rparr> d (cdata_bytes ?c mem)))
          = c_len ?c \<and>
        Pokemon_initialize T ?c d mem =
          (fst (Pokemon_initialize T \<lparr>c_off = 0, c_len = c_len ?c\<rparr> d (cdata_bytes ?c mem)),
           write_bytes (c_off ?c)
             (snd (Pokemon_initialize T \<lparr>c_off = 0, c_len = c_len ?c\<rparr> d (cdata_bytes ?c mem))) mem)"
    unfolding relocatable_def by blast
  then show "Pokemon_initialize T ?c d mem =
           (fst (Pokemon_new T d), write_bytes (c_off ?c) (snd (Pokemon_new T d)) mem)"
    and "length (snd (Pokemon_new T d)) = size_Pokemon (LAYOUT T)"
    unfolding c0 assms(3) Pokemon_new_eq by (simp_all add: team_slot_def)
qed

lemma init_team_slots:
  assumes team: "side_team self = map (team_slot (LAYOUT T)) [0..<6]"
    and fit: "off_Side_pokemon (LAYOUT T) + 6 * size_Pokemon (LAYOUT T) \<le> length mem"
    and n: "i + length ds \<le> 6"
    and valid: "\<forall>d\<in>set ds. fst (Pokemon_new T d) = None"
    and zero: "\<forall>j. i \<le> j \<and> j < 6 \<longrightarrow>
                 cdata_bytes (team_slot (LAYOUT T) j) mem = ffi_new (size_Pokemon (LAYOUT T))"
  shows "\<exists>mem'. init_team T self i ds mem = (None, mem') \<and> length mem' = length mem
           \<and> (\<forall>k<length ds. cdata_bytes (team_slot (LAYOUT T) (i + k)) mem'
                                = snd (Pokemon_new T (ds ! k)))
           \<and> (\<forall>j<i. cdata_bytes (team_slot (LAYOUT T) j) mem'
                        = cdata_bytes (team_slot (LAYOUT T) j) mem)"
  using fit n valid zero
proof (induction ds arbitrary: i mem)
  case Nil
  then show ?case by (simp add: ok_def)
next
  case (Cons d ds)
  let ?L = "LAYOUT T"
  let ?c = "team_slot ?L i"
  let ?b = "snd (Pokemon_new T d)"
  let ?m1 = "write_bytes (c_off ?c) ?b mem"
  from Cons.prems have i: "i < 6" by simp
  have zi: "cdata_bytes ?c mem = ffi_new (size_Pokemon ?L)"
    using Cons.prems(4) i by simp
  note z = initialize_zero_slot [OF i Cons.prems(1) zi, of d]
  have ok: "fst (Pokemon_new T d) = None"
    using Cons.prems(3) by simp
  have get: "list_get (side_team self) i = Inr ?c"
    using i by (simp add: list_get_def team)
  have step: "Pokemon_initialize T ?c d mem = (None, ?m1)"
    using z(1) ok by simp
  have win: "c_off ?c + c_len ?c \<le> length mem"
    by (rule slot_in_bounds [OF i Cons.prems(1)])
  have len1: "length ?m1 = length mem"
    using win z(2) by (intro length_write_bytes) (simp add: team_slot_def)
  have own: "cdata_bytes ?c ?m1 = ?b"
    using win z(2) by (intro cdata_bytes_write_bytes) (simp_all add: team_slot_def)
  have other: "cdata_bytes (team_slot ?L j) ?m1 = cdata_bytes (team_slot ?L j) mem"
    if "j \<noteq> i" "j < 6" for j
    using that i Cons.prems(1) z(2) by (intro other_slot_unchanged) simp_all
  have fit1: "off_Side_pokemon ?L + 6 * size_Pokemon ?L \<le> length ?m1"
    using Cons.prems(1) len1 by simp
  have n1: "Suc i + length ds \<le> 6"
    using Cons.prems(2) by simp
  have valid1: "\<forall>d\<in>set ds. fst (Pokemon_new T d) = None"
    using Cons.prems(3) by simp
  have zero1: "\<forall>j. Suc i \<le> j \<and> j < 6 \<longrightarrow>
                 cdata_bytes (team_slot ?L j) ?m1 = ffi_new (size_Pokemon ?L)"
  proof (intro allI impI)
    fix j
    assume j: "Suc i \<le> j \<and> j < 6"
    then have "cdata_bytes (team_slot ?L j) ?m1 = cdata_bytes (team_slot ?L j) mem"
      by (intro other) simp_all
    moreover have "cdata_bytes (team_slot ?L j) mem = ffi_new (size_Pokemon ?L)"
      using Cons.prems(4) j by simp
    ultimately show "cdata_bytes (team_slot ?L j) ?m1 = ffi_new (size_Pokemon ?L)"
      by simp
  qed
  from Cons.IH [OF fit1 n1 valid1 zero1] obtain mem' where
    r: "init_team T self (Suc i) ds ?m1 = (None, mem')" "length mem' = length ?m1"
      "\<forall>k<length ds. cdata_bytes (team_slot ?L (Suc i + k)) mem' = snd (Pokemon_new T (ds ! k))"
      "\<forall>j<Suc i. cdata_bytes (team_slot ?L j) mem' = cdata_bytes (team_slot ?L j) ?m1"
    by blast
  have run: "init_team T self i (d # ds) mem = (None, mem')"
    using get step r(1) by (simp add: andthen_def)
  have slots: "cdata_bytes (team_slot ?L (i + k)) mem' = snd (Pokemon_new T ((d # ds) ! k))"
    if "k < length (d # ds)" for k
  proof (cases k)
    case 0
    then show ?thesis using r(4) own by simp
  next
    case (Suc k')
    then show ?thesis using r(3) that by simp
  qed
  have before: "cdata_bytes (team_slot ?L j) mem' = cdata_bytes (team_slot ?L j) mem"
    if "j < i" for j
  proof -
    have "cdata_bytes (team_slot ?L j) mem' = cdata_bytes (team_slot ?L j) ?m1"
      using r(4) that by simp
    moreover have "cdata_bytes (team_slot ?L j) ?m1 = cdata_bytes (team_slot ?L j) mem"
      using that i by (intro other) simp_all
    ultimately show ?thesis by simp
  qed
  show ?case
  proof (intro exI conjI)
    show "init_team T self i (d # ds) mem = (None, mem')" by (rule run)
    show "length mem' = length mem" using r(2) len1 by simp
    show "\<forall>k<length (d # ds). cdata_bytes (team_slot ?L (i + k)) mem'
            = snd (Pokemon_new T ((d # ds) ! k))"
      using slots by blast
    show "\<forall>j<i. cdata_bytes (team_slot ?L j) mem' = cdata_bytes (team_slot ?L j) mem"
      using before by blast
  qed
qed

lemma write_order_ok:
  assumes "side_bytes self = \<lparr>c_off = 0, c_len = length mem\<rparr>"
    and "off_Side_order (LAYOUT T) + i + length slots \<le> length mem"
    and "\<forall>s\<in>set slots. 0 \<le> s \<and> s \<le> 255"
  shows "\<exists>mem'. write_order T self i slots mem = (None, mem') \<and> length mem' = length mem
           \<and> (\<forall>n<off_Side_order (LAYOUT T). mem' ! n = mem ! n)"
  using assms
proof (induction slots arbitrary: i mem)
  case Nil
  then show ?case by (simp add: ok_def)
next
  case (Cons s slots)
  let ?m1 = "mem[off_Side_order (LAYOUT T) + i := word_of_int s]"
  have step: "cdata_set (side_bytes self) (off_Side_order (LAYOUT T) + i) s mem = (None, ?m1)"
    using Cons.prems by (simp add: cdata_set_def)
  have "\<exists>mem'. write_order T self (Suc i) slots ?m1 = (None, mem') \<and> length mem' = length ?m1
           \<and> (\<forall>n<off_Side_order (LAYOUT T). mem' ! n = ?m1 ! n)"
    using Cons.prems by (intro Cons.IH) simp_all
  then obtain mem' where r: "write_order T self (Suc i) slots ?m1 = (None, mem')"
      "length mem' = length ?m1" "\<forall>n<off_Side_order (LAYOUT T). mem' ! n = ?m1 ! n"
    by blast
  have "write_order T self i (s # slots) mem = (None, mem')"
    using step r(1) by (simp add: andthen_def)
  moreover have "\<forall>n<off_Side_order (LAYOUT T). mem' ! n = mem ! n"
    using r(3) by simp
  ultimately show ?case
    using r(2) by auto
qed

lemma zero_slot:
  assumes "j < 6" "off_Side_pokemon L + 6 * size_Pokemon L \<le> n"
  shows "cdata_bytes (team_slot L j) (ffi_new n) = ffi_new (size_Pokemon L)"
proof -
  have "c_off (team_slot L j) + c_len (team_slot L j) \<le> n"
    by (rule slot_in_bounds [OF assms])
  then show ?thesis
    by (simp add: cdata_bytes_def ffi_new_def team_slot_def min_def)
qed

text \<open>
  Claim C2. For a team of at most six initializers, each of which \<^verbatim>\<open>Pokemon.new\<close>
  accepts, \<^verbatim>\<open>Side.new\<close> succeeds, and afterwards the side's own memory holds, at the
  offset of each team slot, exactly the record \<^verbatim>\<open>Pokemon.new\<close> packs from that slot's
  initializer: the slots are initialized in place, through windows on the side's buffer.
\<close>

theorem Side_new_slots:
  assumes L: "side_layout_ok (LAYOUT T)"
    and n: "length team \<le> 6"
    and valid: "\<forall>d\<in>set team. fst (Pokemon_new T d) = None"
  shows "\<exists>mem. Side_new T (TeamList team) = (None, mem)
           \<and> (\<forall>i<length team. cdata_bytes (team_slot (LAYOUT T) i) mem
                                  = snd (Pokemon_new T (team ! i)))"
proof -
  let ?L = "LAYOUT T"
  let ?side = "\<lparr>side_bytes = \<lparr>c_off = 0, c_len = size_Side ?L\<rparr>,
                side_team = map (team_slot ?L) [0..<6]\<rparr>"
  let ?m0 = "ffi_new (size_Side ?L)"
  have fit: "off_Side_pokemon ?L + 6 * size_Pokemon ?L \<le> length ?m0"
    using L by (simp add: side_layout_ok_def ffi_new_def)
  have fit': "off_Side_pokemon ?L + 6 * size_Pokemon ?L \<le> size_Side ?L"
    using L by (simp add: side_layout_ok_def)
  have zero: "\<forall>j. 0 \<le> j \<and> j < 6 \<longrightarrow> cdata_bytes (team_slot ?L j) ?m0 = ffi_new (size_Pokemon ?L)"
    using zero_slot [OF _ fit'] by blast
  have n0: "0 + length team \<le> 6" using n by simp
  from init_team_slots [of ?side T ?m0 0 team, OF _ fit n0 valid zero] obtain m1 where
    m1: "init_team T ?side 0 team ?m0 = (None, m1)" "length m1 = length ?m0"
      "\<forall>k<length team. cdata_bytes (team_slot ?L (0 + k)) m1 = snd (Pokemon_new T (team ! k))"
    by auto
  let ?order = "map (\<lambda>i. int i + 1) [0..<length team]"
  have sb: "side_bytes ?side = \<lparr>c_off = 0, c_len = length m1\<rparr>"
    using m1(2) by (simp add: ffi_new_def)
  have room: "off_Side_order ?L + 0 + length ?order \<le> length m1"
    using L n m1(2) by (simp add: side_layout_ok_def ffi_new_def)
  have bytes: "\<forall>s\<in>set ?order. 0 \<le> s \<and> s \<le> 255"
    using n by auto
  from write_order_ok [OF sb room bytes] obtain m2 where
    m2: "write_order T ?side 0 ?order m1 = (None, m2)" "length m2 = length m1"
      "\<forall>n<off_Side_order ?L. m2 ! n = m1 ! n"
    by blast
  have run: "Side_new T (TeamList team) = (None, m2)"
    using m1(1) m2(1)
    by (simp add: Side_new_def Let_def Side_init_views [OF L] Side_initialize_def
        initialize_team_def andthen_def)
  have slot: "cdata_bytes (team_slot ?L i) m2 = snd (Pokemon_new T (team ! i))"
    if "i < length team" for i
  proof -
    from that n have i: "i < 6" by simp
    have win: "c_off (team_slot ?L i) + c_len (team_slot ?L i) \<le> length m1"
      using slot_in_bounds [OF i, of ?L "length m1"] fit m1(2) by simp
    have below: "c_off (team_slot ?L i) + c_len (team_slot ?L i) \<le> off_Side_order ?L"
      using slot_in_bounds [OF i, of ?L "off_Side_order ?L"] L by (simp add: side_layout_ok_def)
    have "cdata_bytes (team_slot ?L i) m2 = cdata_bytes (team_slot ?L i) m1"
      using m2(3) below by (intro cdata_bytes_cong [OF m2(2) win]) simp
    then show ?thesis
      using m1(3) that by simp
  qed
  show ?thesis
    using run slot by blast
qed

theorem Side_new_slots_witness:
  "\<exists>mem. Side_new sample_tables (TeamList [sample_pokemon, sample_pokemon]) = (None, mem)
     \<and> take 24 mem = snd (Pokemon_new sample_tables sample_pokemon)
     \<and> take 24 (drop 24 mem) = snd (Pokemon_new sample_tables sample_pokemon)"
proof -
  have "\<exists>mem. Side_new sample_tables (TeamList [sample_pokemon, sample_pokemon]) = (None, mem)
           \<and> (\<forall>i<length [sample_pokemon, sample_pokemon].
                 cdata_bytes (team_slot (LAYOUT sample_tables) i) mem
                   = snd (Pokemon_new sample_tables ([sample_pokemon, sample_pokemon] ! i)))"
  proof (rule Side_new_slots)
    show "side_layout_ok (LAYOUT sample_tables)"
      by (simp add: side_layout_ok_def sample_tables_def sample_layout_def)
    show "length [sample_pokemon, sample_pokemon] \<le> 6" by simp
    show "\<forall>d\<in>set [sample_pokemon, sample_pokemon]. fst (Pokemon_new sample_tables d) = None"
      by (simp add: sample_pokemon_new)
  qed
  then obtain mem where
    m: "Side_new sample_tables (TeamList [sample_pokemon, sample_pokemon]) = (None, mem)"
      "\<forall>i<2. cdata_bytes (team_slot (LAYOUT sample_tables) i) mem
                   = snd (Pokemon_new sample_tables ([sample_pokemon, sample_pokemon] ! i))"
    by auto
  from m(2) have "cdata_bytes (team_slot (LAYOUT sample_tables) 0) mem
                    = snd (Pokemon_new sample_tables sample_pokemon)"
    "cdata_bytes (team_slot (LAYOUT sample_tables) 1) mem
                    = snd (Pokemon_new sample_tables sample_pokemon)"
    by (simp_all add: numeral_2_eq_2)
  then have "take 24 mem = snd (Pokemon_new sample_tables sample_pokemon)"
    "take 24 (drop 24 mem) = snd (Pokemon_new sample_tables sample_pokemon)"
    by (simp_all add: cdata_bytes_def team_slot_def sample_tables_def sample_layout_def)
  with m(1) show ?thesis by blast
qed

section \<open>Properties of Volatiles\<close>

lemma length_uint_bits: "length (uint_bits n v) = n"
  by (simp add: uint_bits_def)

lemma length_little_endian:
  "length (concat (map (\<lambda>k. uint_bits 8 (f k)) ks)) = 8 * length ks"
  by (induction ks) (simp_all add: length_uint_bits)

lemma Bits_uint_fit: "0 \<le> v \<Longrightarrow> v < 2 ^ n \<Longrightarrow> Bits_uint v n = Inr (uint_bits n v)"
  by (simp add: Bits_uint_def)

lemma Bits_uint_result: "(\<exists>bs. Bits_uint v n = Inr bs) \<or> Bits_uint v n = Inl CreationError"
  by (simp add: Bits_uint_def)

lemma Bits_uint_unfit: "\<not> (0 \<le> v \<and> v < 2 ^ n) \<Longrightarrow> Bits_uint v n = Inl CreationError"
  by (simp add: Bits_uint_def)

lemma Bits_uintne_fit:
  "n mod 8 = 0 \<Longrightarrow> 0 \<le> v \<Longrightarrow> v < 2 ^ n \<Longrightarrow> \<exists>bs. Bits_uintne le v n = Inr bs \<and> length bs = n"
  by (auto simp: Bits_uintne_def length_uint_bits length_little_endian)

lemma Bits_uintne_result: "(\<exists>bs. Bits_uintne le v n = Inr bs) \<or> Bits_uintne le v n = Inl CreationError"
  by (simp add: Bits_uintne_def)

lemma Bits_uintne_unfit: "\<not> (0 \<le> v \<and> v < 2 ^ n) \<Longrightarrow> Bits_uintne le v n = Inl CreationError"
  by (auto simp: Bits_uintne_def)

lemma collect_error:
  assumes "\<forall>x\<in>set xs. (\<exists>v. x = Inr v) \<or> x = Inl e" "Inl e \<in> set xs"
  shows "collect xs = Inl e"
  using assms
proof (induction xs)
  case Nil
  then show ?case by simp
next
  case (Cons x xs)
  show ?case
  proof (cases x)
    case (Inl e')
    with Cons.prems show ?thesis by (auto simp: bind_e_def)
  next
    case (Inr v)
    with Cons.prems have "Inl e \<in> set xs" by auto
    with Cons have "collect xs = Inl e" by simp
    with Inr show ?thesis by (simp add: bind_e_def)
  qed
qed

lemma Volatiles_to_bits_fit:
  assumes "volatiles_fit v"
  shows "\<exists>bits. Volatiles_to_bits le v = Inr bits \<and> length bits = 64"
proof -
  from assms obtain s where s: "Bits_uintne le (state v) 16 = Inr s" "length s = 16"
    using Bits_uintne_fit [of 16 "state v" le] by (auto simp: volatiles_fit_def)
  from assms obtain b where b: "Bits_uintne le (substitute v) 8 = Inr b" "length b = 8"
    using Bits_uintne_fit [of 8 "substitute v" le] by (auto simp: volatiles_fit_def)
  have u: "Bits_uint (confusion v) 3 = Inr (uint_bits 3 (confusion v))"
    "Bits_uint (attacks v) 3 = Inr (uint_bits 3 (attacks v))"
    "Bits_uint (transform v) 4 = Inr (uint_bits 4 (transform v))"
    "Bits_uint (disabled_duration v) 4 = Inr (uint_bits 4 (disabled_duration v))"
    "Bits_uint (disabled_move v) 3 = Inr (uint_bits 3 (disabled_move v))"
    "Bits_uint (toxic v) 5 = Inr (uint_bits 5 (toxic v))"
    using assms by (simp_all add: volatiles_fit_def Bits_uint_fit)
  show ?thesis
    by (simp add: Volatiles_to_bits_def Bits_join_def bind_e_def Bits_bool_def u s b
        length_uint_bits)
qed

lemma Volatiles_to_bits_unfit:
  assumes "\<not> volatiles_fit v"
  shows "Volatiles_to_bits le v = Inl CreationError"
proof -
  let ?parts = "[Inr (Bits_bool (Bide v)),
           Inr (Bits_bool (Thrashing v)),
           Inr (Bits_bool (MultiHit v)),
           Inr (Bits_bool (Flinch v)),
           Inr (Bits_bool (Charging v)),
           Inr (Bits_bool (Binding v)),
           Inr (Bits_bool (Invulnerable v)),
           Inr (Bits_bool (Confusion v)),
           Inr (Bits_bool (Mist v)),
           Inr (Bits_bool (FocusEnergy v)),
           Inr (Bits_bool (Substitute v)),
           Inr (Bits_bool (Recharging v)),
           Inr (Bits_bool (Rage v)),
           Inr (Bits_bool (LeechSeed v)),
           Inr (Bits_bool (Toxic v)),
           Inr (Bits_bool (LightScreen v)),
           Inr (Bits_bool (Reflect v)),
           Inr (Bits_bool (Transform v)),
           Bits_uint (confusion v) 3,
           Bits_uint (attacks v) 3,
           Bits_uintne le (state v) 16,
           Bits_uintne le (substitute v) 8,
           Bits_uint (transform v) 4,
           Bits_uint (disabled_duration v) 4,
           Bits_uint (disabled_move v) 3,
           Bits_uint (toxic v) 5]"
  have all: "\<forall>x\<in>set ?parts. (\<exists>bs. x = Inr bs) \<or> x = Inl CreationError"
    using Bits_uint_result Bits_uintne_result by simp
  have some: "Inl CreationError \<in> set ?parts"
  proof -
    from assms consider "\<not> (0 \<le> confusion v \<and> confusion v < 2 ^ 3)"
      | "\<not> (0 \<le> attacks v \<and> attacks v < 2 ^ 3)"
      | "\<not> (0 \<le> state v \<and> state v < 2 ^ 16)"
      | "\<not> (0 \<le> substitute v \<and> substitute v < 2 ^ 8)"
      | "\<not> (0 \<le> transform v \<and> transform v < 2 ^ 4)"
      | "\<not> (0 \<le> disabled_duration v \<and> disabled_duration v < 2 ^ 4)"
      | "\<not> (0 \<le> disabled_move v \<and> disabled_move v < 2 ^ 3)"
      | "\<not> (0 \<le> toxic v \<and> toxic v < 2 ^ 5)"
      unfolding volatiles_fit_def by fastforce
    then show ?thesis
    proof cases
      case 1 from Bits_uint_unfit [OF this] show ?thesis by simp
    next
      case 2 from Bits_uint_unfit [OF this] show ?thesis by simp
    next
      case 3 from Bits_uintne_unfit [OF this, of le] show ?thesis by simp
    next
      case 4 from Bits_uintne_unfit [OF this, of le] show ?thesis by simp
    next
      case 5 from Bits_uint_unfit [OF this] show ?thesis by simp
    next
      case 6 from Bits_uint_unfit [OF this] show ?thesis by simp
    next
      case 7 from Bits_uint_unfit [OF this] show ?thesis by simp
    next
      case 8 from Bits_uint_unfit [OF this] show ?thesis by simp
    qed
  qed
  have "collect ?parts = Inl CreationError"
    by (rule collect_error [OF all some])
  then show ?thesis
    by (simp add: Volatiles_to_bits_def Bits_join_def bind_e_def)
qed

text \<open>
  Claim C8. Whenever every counter of a \<^verbatim>\<open>Volatiles\<close> fits the width it is packed in,
  \<^verbatim>\<open>_to_bits\<close> returns a bit string of exactly 64 bits; it returns a bit string in no
  other case, and the assertion on the width never fails: a value that does not fit is
  refused by the packing of its field, not truncated.
\<close>

theorem Volatiles_to_bits_width:
  "(volatiles_fit v \<longrightarrow> (\<exists>bits. Volatiles_to_bits le v = Inr bits \<and> length bits = 64))
   \<and> (\<forall>bits. Volatiles_to_bits le v = Inr bits \<longrightarrow> length bits = 64 \<and> volatiles_fit v)
   \<and> Volatiles_to_bits le v \<noteq> Inl AssertionError"
  using Volatiles_to_bits_fit [of v le] Volatiles_to_bits_unfit [of v le]
  by (cases "volatiles_fit v") auto

theorem Volatiles_to_bits_width_witness:
  "volatiles_fit sample_volatiles
   \<and> (\<exists>bits. Volatiles_to_bits True sample_volatiles = Inr bits \<and> length bits = 64)"
proof -
  have "volatiles_fit sample_volatiles"
    by (simp add: volatiles_fit_def sample_volatiles_def)
  then show ?thesis
    using Volatiles_to_bits_width [of sample_volatiles True] by simp
qed

section \<open>Properties of Battle\<close>

lemma collect_all_Inr: "collect (map (\<lambda>i. Inr (f i)) xs) = Inr (map f xs)"
  by (induction xs) (simp_all add: bind_e_def)

lemma collect_not_Nil: "xs \<noteq> [] \<Longrightarrow> collect xs \<noteq> Inr []"
  by (cases xs) (auto simp: bind_e_def split: sum.splits)

text \<open>
  Claim C6. \<^verbatim>\<open>possible_choices\<close> raises \<^verbatim>\<open>Softlock\<close> when the engine reports zero
  choices, never returns the empty list, and when the engine reports \<open>n > 0\<close> choices
  within the capacity of the array it was given, returns those \<open>n\<close> choices in the order
  of the array.
\<close>

theorem possible_choices_softlock:
  "(fst (engine battle player
          (if player = P1 then p1_choice_type prev else p2_choice_type prev) cap) = 0
      \<longrightarrow> possible_choices engine cap battle player prev = Inl Softlock)
   \<and> possible_choices engine cap battle player prev \<noteq> Inr []
   \<and> (\<forall>n out.
         engine battle player
           (if player = P1 then p1_choice_type prev else p2_choice_type prev) cap = (n, out)
         \<and> 0 < n \<and> n \<le> cap
         \<longrightarrow> possible_choices engine cap battle player prev
               = Inr (map (\<lambda>i. Choice (out i)) [0..<n]))"
proof -
  let ?k = "if player = P1 then p1_choice_type prev else p2_choice_type prev"
  obtain n out where e: "engine battle player ?k cap = (n, out)"
    by (cases "engine battle player ?k cap")
  have 1: "n = 0 \<Longrightarrow> possible_choices engine cap battle player prev = Inl Softlock"
    using e by (simp add: possible_choices_def Let_def)
  have 2: "possible_choices engine cap battle player prev \<noteq> Inr []"
  proof (cases "n = 0")
    case True
    with 1 show ?thesis by simp
  next
    case False
    then have "map (\<lambda>i. if i < cap then Inr (Choice (out i)) else Inl IndexError) [0..<n] \<noteq> []"
      by simp
    from collect_not_Nil [OF this] show ?thesis
      using e False by (simp add: possible_choices_def Let_def)
  qed
  have 3: "possible_choices engine cap battle player prev = Inr (map (\<lambda>i. Choice (out i)) [0..<n])"
    if "0 < n" "n \<le> cap"
  proof -
    have m: "map (\<lambda>i. if i < cap then Inr (Choice (out i)) else Inl IndexError) [0..<n]
            = map (\<lambda>i. Inr (Choice (out i))) [0..<n]"
      using that by simp
    have "collect (map (\<lambda>i. if i < cap then Inr (Choice (out i)) else Inl IndexError) [0..<n])
            = Inr (map (\<lambda>i. Choice (out i)) [0..<n])"
      unfolding m by (rule collect_all_Inr)
    then show ?thesis
      using e that by (simp add: possible_choices_def Let_def)
  qed
  show ?thesis
    using e 1 2 3 by auto
qed

theorem possible_choices_softlock_witness:
  "possible_choices sample_engine_choices 9 () P1 \<lparr>p1_choice_type = 0, p2_choice_type = 1\<rparr>
     = Inl Softlock
   \<and> possible_choices sample_engine_choices 9 () P2 \<lparr>p1_choice_type = 0, p2_choice_type = 1\<rparr>
     = Inr [Choice 5, Choice 9]"
proof -
  let ?prev = "\<lparr>p1_choice_type = 0::nat, p2_choice_type = 1\<rparr>"
  have a: "possible_choices sample_engine_choices 9 () P1 ?prev = Inl Softlock"
    using possible_choices_softlock [of sample_engine_choices "()" P1 ?prev 9]
    by (simp add: sample_engine_choices_def)
  have "sample_engine_choices () P2 (if P2 = P1 then p1_choice_type ?prev else p2_choice_type ?prev) 9
          = (2, \<lambda>i. if i = 0 then 5 else if i = 1 then 9 else 0) \<and> (0::nat) < 2 \<and> (2::nat) \<le> 9"
    by (simp add: sample_engine_choices_def)
  with possible_choices_softlock [of sample_engine_choices "()" P2 ?prev 9]
  have "possible_choices sample_engine_choices 9 () P2 ?prev
          = Inr (map (\<lambda>i. Choice (if i = 0 then 5 else if i = 1 then 9 else 0)) [0..<2])"
    by blast
  then have b: "possible_choices sample_engine_choices 9 () P2 ?prev = Inr [Choice 5, Choice 9]"
    by (simp add: upt_rec [of 0] upt_rec [of 1] numeral_2_eq_2)
  show ?thesis using a b by simp
qed

text \<open>
  Claim C1 does not hold of the code: the constructor evaluates \<^verbatim>\<open>rng._to_bits()\<close>, and
  \<^verbatim>\<open>ShowdownRNG\<close> has no such method. With two zero sides of 184 bytes, zero counters
  and an engine size of 384 bytes, where the claim has the construction succeed, it
  raises \<^verbatim>\<open>AttributeError\<close>; and no input makes it succeed.
\<close>

theorem Battle_init_AttributeError:
  "Battle_init True 384 zero_side zero_side 0 0 0 0 (ShowdownRNG (replicate 8 0))
     = Inl AttributeError
   \<and> (\<forall>little cap p1 p2 turn damage i1 i2 rng.
         \<exists>e. Battle_init little cap p1 p2 turn damage i1 i2 rng = Inl e)"
proof -
  have r: "rng_to_bits rng = Inl AttributeError" for rng
    by (simp add: rng_to_bits_def ShowdownRNG_getattr_def)
  have ne: "(\<exists>bs. Bits_uintne le v 16 = Inr bs) \<or> (\<exists>e. Bits_uintne le v 16 = Inl e)" for le v
    by (cases "Bits_uintne le v 16") auto
  have "\<exists>e. Battle_init little cap p1 p2 turn damage i1 i2 rng = Inl e"
    for little cap p1 p2 turn damage i1 i2 rng
    using ne [of little turn] ne [of little damage] ne [of little i1] ne [of little i2]
    by (auto simp: Battle_init_def Bits_join_def pack_move_indexes_def bind_e_def r Let_def)
  moreover have "Battle_init True 384 zero_side zero_side 0 0 0 0 (ShowdownRNG (replicate 8 0))
     = Inl AttributeError"
    by (simp add: Battle_init_def Bits_join_def pack_move_indexes_def bind_e_def r Let_def
        Bits_uintne_def)
  ultimately show ?thesis by blast
qed

section \<open>Properties of the protocol parser\<close>











end
